theory Spec2Isabelle
  imports Main "HOL-Library.Sublist" "HOL-Library.AList" "HOL-Library.Multiset"
begin

section \<open>Data model\<close>

text \<open>
  A thrown JavaScript \<^verbatim>\<open>Error\<close> is a value carrying its message; an exception raised by
  Node's \<^verbatim>\<open>fs\<close> module carries its error code.
\<close>

datatype error = Error string | SystemError string

text \<open>
  Modelled from the spec: the interface \<^verbatim>\<open>ConfigRouteObject\<close> is declared in
  \<^verbatim>\<open>./routes\<close>, which is not among the sources. The spec's data model gives a route the
  fields \<^verbatim>\<open>id\<close>, \<^verbatim>\<open>path\<close>, \<^verbatim>\<open>moduleFile\<close>, \<^verbatim>\<open>stylesFile\<close>, \<^verbatim>\<open>parentId\<close> and
  \<^verbatim>\<open>children\<close>. \<open>RouteInfo\<close> is the object \<^verbatim>\<open>rest\<close> of
  \<^verbatim>\<open>let { children, ...rest } = route\<close>: a route without its children.
\<close>

record RouteInfo =
  route_id :: string
  route_path :: string
  moduleFile :: "string option"
  stylesFile :: "string option"
  parentId :: "string option"

datatype ConfigRouteObject =
  Route (info: RouteInfo) (children: "ConfigRouteObject list option")

subsection \<open>Objects as dictionaries\<close>

text \<open>
  A plain JavaScript object used as a dictionary is the list of its own properties in the
  order in which they were created. \<^verbatim>\<open>obj[key] = v\<close> replaces the value of a property
  that is there, in its place, and otherwise creates the property last, which is what
  \<open>AList.update\<close> does. The one exception is the key \<^verbatim>\<open>__proto__\<close>, the accessor of
  \<^verbatim>\<open>Object.prototype\<close>: assigning to it stores no property of the object (an object
  assigned becomes the prototype, any other value is ignored).
\<close>

definition js_assign :: "string \<Rightarrow> 'v \<Rightarrow> (string \<times> 'v) list \<Rightarrow> (string \<times> 'v) list" where
  "js_assign key v obj = (if key = ''__proto__'' then obj else AList.update key v obj)"

text \<open>
  \<^verbatim>\<open>Object.keys\<close> lists the keys that are array indices first, in ascending numeric
  order, and the other keys after them in the order of their creation. An array index is
  the decimal numeral, without a leading zero, of a number below \<open>2\<^sup>3\<^sup>2 - 1\<close>.
  \<open>js_entries\<close> are the properties in the order of \<^verbatim>\<open>Object.keys\<close>.
\<close>

definition isDigit :: "char \<Rightarrow> bool" where
  "isDigit c = (c \<in> set ''0123456789'')"

definition digitValue :: "char \<Rightarrow> nat" where
  "digitValue c = of_char c - 48"

definition decimalValue :: "string \<Rightarrow> nat" where
  "decimalValue s = foldl (\<lambda>n c. 10 * n + digitValue c) 0 s"

definition isArrayIndex :: "string \<Rightarrow> bool" where
  "isArrayIndex s =
     (s \<noteq> [] \<and> list_all isDigit s \<and> (s = ''0'' \<or> hd s \<noteq> CHR ''0'')
      \<and> decimalValue s < 4294967295)"

definition js_entries :: "(string \<times> 'v) list \<Rightarrow> (string \<times> 'v) list" where
  "js_entries obj =
     sort_key (\<lambda>entry. decimalValue (fst entry)) (filter (\<lambda>entry. isArrayIndex (fst entry)) obj)
     @ filter (\<lambda>entry. \<not> isArrayIndex (fst entry)) obj"

text \<open>A \<^verbatim>\<open>RouteManifest\<close> is such an object, from route ids to routes.\<close>

type_synonym RouteManifest = "(string \<times> RouteInfo) list"

text \<open>
  The resolved configuration. Its directories are absolute paths: the source documents
  each of them so, and \<^verbatim>\<open>readConfig\<close> makes them with \<^verbatim>\<open>path.resolve\<close>.
\<close>

record RemixConfig =
  appDirectory :: string
  browserBuildDirectory :: string
  dataDirectory :: string
  devServerPort :: int
  publicPath :: string
  rootDirectory :: string
  routes :: "ConfigRouteObject list"
  routeManifest :: RouteManifest
  serverBuildDirectory :: string

text \<open>
  The user's \<^verbatim>\<open>remix.config.js\<close>. Every field is optional. \<open>user_routes\<close> is the
  outcome of awaiting \<^verbatim>\<open>appConfig.routes(defineRoutes)\<close> (\<open>None\<close> when the config has
  no \<^verbatim>\<open>routes\<close> function). The \<^verbatim>\<open>mdx\<close> options are passed through untouched and are
  left out.
\<close>

record AppConfig =
  user_appDirectory :: "string option"
  user_browserBuildDirectory :: "string option"
  user_dataDirectory :: "string option"
  user_devServerPort :: "int option"
  user_publicPath :: "string option"
  user_routes :: "(error + ConfigRouteObject list) option"
  user_serverBuildDirectory :: "string option"

subsection \<open>The file system\<close>

text \<open>
  What \<^verbatim>\<open>fs.lstatSync\<close> tells of a directory entry: a regular file, a directory with its
  entries in the order \<^verbatim>\<open>fs.readdirSync\<close> lists them, or something that is neither
  (a fifo, a socket, a device). Symbolic links are not modelled.
\<close>

datatype fsnode = File | Dir "(string \<times> fsnode) list" | Other

type_synonym directory = "(string \<times> fsnode) list"

text \<open>
  \<^verbatim>\<open>fs.existsSync\<close> of the path made of a directory and a name with no slash in it:
  the directory, given by its listing, has an entry of that name.
\<close>

definition existsSync :: "directory \<Rightarrow> string \<Rightarrow> bool" where
  "existsSync entries name = (name \<in> set (map fst entries))"

section \<open>config.ts\<close>

text \<open>
  \<^verbatim>\<open>a || d\<close> on an optional string: \<^verbatim>\<open>undefined\<close> and the empty string are falsy.
\<close>

definition or_default :: "string option \<Rightarrow> string \<Rightarrow> string" where
  "or_default a d = (case a of None \<Rightarrow> d | Some s \<Rightarrow> if s = [] then d else s)"

text \<open>
  \<^verbatim>\<open>appConfig.devServerPort || 8002\<close>: \<^verbatim>\<open>undefined\<close> and \<open>0\<close> are falsy.
\<close>

definition port_or_default :: "int option \<Rightarrow> int \<Rightarrow> int" where
  "port_or_default a d = (case a of None \<Rightarrow> d | Some n \<Rightarrow> if n = 0 then d else n)"

text \<open>
  \<^verbatim>\<open>createRouteManifest\<close> (config.ts, lines 183-198). The loop over \<^verbatim>\<open>routes\<close> is the
  recursion on the list; the manifest, mutated in place by the source, is passed along.
  \<^verbatim>\<open>manifest[route.id] = rest\<close> is \<open>js_assign\<close>.
\<close>

fun createRouteManifest :: "ConfigRouteObject list \<Rightarrow> RouteManifest \<Rightarrow> RouteManifest" where
  "createRouteManifest [] manifest = manifest"
| "createRouteManifest (Route rest ch # rs) manifest =
     createRouteManifest rs
       (case ch of
          None \<Rightarrow> js_assign (route_id rest) rest manifest
        | Some cs \<Rightarrow> createRouteManifest cs (js_assign (route_id rest) rest manifest))"

subsection \<open>Trees, manifests and their edges\<close>

text \<open>
  The routes of a tree without their children, depth first: a node, then the routes
  below it, then its later siblings. This is the order in which
  \<^verbatim>\<open>createRouteManifest\<close> meets them.
\<close>

fun routeInfos :: "ConfigRouteObject list \<Rightarrow> RouteInfo list" where
  "routeInfos [] = []"
| "routeInfos (Route rest ch # rs) =
     rest # (case ch of None \<Rightarrow> [] | Some cs \<Rightarrow> routeInfos cs) @ routeInfos rs"

definition treeIds :: "ConfigRouteObject list \<Rightarrow> string list" where
  "treeIds rs = map route_id (routeInfos rs)"

text \<open>
  The edges of a tree: a pair of the id of a node and the id of each of its children.
\<close>

fun treeEdges :: "ConfigRouteObject list \<Rightarrow> (string \<times> string) list" where
  "treeEdges [] = []"
| "treeEdges (Route rest ch # rs) =
     (case ch of
        None \<Rightarrow> []
      | Some cs \<Rightarrow> map (\<lambda>c. (route_id rest, route_id (info c))) cs @ treeEdges cs)
     @ treeEdges rs"

text \<open>
  The edges rebuilt from a manifest, in the claim's words: every property whose record
  has a \<^verbatim>\<open>parentId\<close> gives the edge from that parent to the property's key.
\<close>

definition manifestEdges :: "RouteManifest \<Rightarrow> (string \<times> string) list" where
  "manifestEdges manifest =
     concat (map (\<lambda>(key, r). case parentId r of None \<Rightarrow> [] | Some p \<Rightarrow> [(p, key)]) manifest)"

text \<open>
  The \<^verbatim>\<open>parentId\<close> fields of a tree agree with its nesting: every route directly below a
  node carries that node's id, and a route of the list given first carries \<open>p\<close> (no
  \<^verbatim>\<open>parentId\<close> for a top-level route).
\<close>

fun parentsConsistent :: "string option \<Rightarrow> ConfigRouteObject list \<Rightarrow> bool" where
  "parentsConsistent p [] = True"
| "parentsConsistent p (Route rest ch # rs) =
     (parentId rest = p
      \<and> (case ch of None \<Rightarrow> True | Some cs \<Rightarrow> parentsConsistent (Some (route_id rest)) cs)
      \<and> parentsConsistent p rs)"

text \<open>The dictionary that holds every record of a list under its own id.\<close>

definition manifestOf :: "RouteInfo list \<Rightarrow> RouteManifest" where
  "manifestOf infos = map (\<lambda>r. (route_id r, r)) infos"

text \<open>
  What \<^verbatim>\<open>require(configFile)\<close> does: it returns the module's exports, or throws because
  the file is not there, or throws whatever the file throws while it loads.
\<close>

datatype 'a require_result = Loaded 'a | ModuleNotFound | LoadThrew string

text \<open>
  The surroundings of \<^verbatim>\<open>readConfig\<close>: the environment variable, the working directory,
  Node's \<^verbatim>\<open>require\<close>, and \<^verbatim>\<open>getConventionalRoutes\<close> of \<^verbatim>\<open>./routes\<close> (not among
  the sources), which either throws or returns the route tree.
\<close>

record Host =
  env_REMIX_ROOT :: "string option"
  process_cwd :: string
  require :: "string \<Rightarrow> AppConfig require_result"
  getConventionalRoutes :: "string \<Rightarrow> string \<Rightarrow> error + ConfigRouteObject list"

text \<open>
  Node's \<^verbatim>\<open>path.resolve(dir, p)\<close> on a POSIX host, for an absolute \<^verbatim>\<open>dir\<close> (every
  directory of a resolved configuration is one, and so is the working directory): an
  absolute \<^verbatim>\<open>p\<close> stands alone, a relative one is appended to \<^verbatim>\<open>dir\<close>, and the path
  is normalized. Normalizing splits the path at its slashes, drops the empty segments and
  the segments \<^verbatim>\<open>.\<close>, lets a segment \<^verbatim>\<open>..\<close> remove the segment before it (none at the
  root), and writes every segment left after a slash; with no segment left the path is
  the root.
\<close>

fun splitSlash :: "string \<Rightarrow> string list" where
  "splitSlash [] = [[]]"
| "splitSlash (c # cs) =
     (if c = CHR ''/'' then [] # splitSlash cs
      else (case splitSlash cs of [] \<Rightarrow> [[c]] | s # ss \<Rightarrow> (c # s) # ss))"

definition normalizeStep :: "string list \<Rightarrow> string \<Rightarrow> string list" where
  "normalizeStep segments segment =
     (if segment = [] \<or> segment = ''.'' then segments
      else if segment = ''..'' then butlast segments
      else segments @ [segment])"

fun joinSlash :: "string list \<Rightarrow> string" where
  "joinSlash [] = []"
| "joinSlash (s # ss) = ''/'' @ s @ joinSlash ss"

definition path_resolve :: "string \<Rightarrow> string \<Rightarrow> string" where
  "path_resolve dir p =
     (let segments = foldl normalizeStep []
                       (splitSlash (if prefix ''/'' p then p else dir @ ''/'' @ p))
      in if segments = [] then ''/'' else joinSlash segments)"

text \<open>
  \<^verbatim>\<open>path.join\<close> of a directory and a relative path, both normalized and without
  \<^verbatim>\<open>.\<close> or \<^verbatim>\<open>..\<close> segments (the names a directory listing gives are such): the two
  with a slash between them.
\<close>

definition path_join :: "string \<Rightarrow> string \<Rightarrow> string" where
  "path_join dir p = dir @ ''/'' @ p"

text \<open>
  Lines 112-117 of \<^verbatim>\<open>readConfig\<close>: the locals \<^verbatim>\<open>rootDirectory\<close> and
  \<^verbatim>\<open>configFile\<close>. \<^verbatim>\<open>path.resolve(remixRoot)\<close> with one argument resolves against
  the working directory.
\<close>

definition resolveRootDirectory :: "Host \<Rightarrow> string option \<Rightarrow> string" where
  "resolveRootDirectory h remixRoot =
     path_resolve (process_cwd h)
       (or_default remixRoot (or_default (env_REMIX_ROOT h) (process_cwd h)))"

definition resolveConfigFile :: "Host \<Rightarrow> string option \<Rightarrow> string" where
  "resolveConfigFile h remixRoot =
     path_resolve (resolveRootDirectory h remixRoot) ''remix.config.js''"

text \<open>Lines 143-146 of \<^verbatim>\<open>readConfig\<close>: the local \<^verbatim>\<open>publicPath\<close>.\<close>

definition resolvePublicPath :: "string option \<Rightarrow> string" where
  "resolvePublicPath configured =
     (let publicPath = or_default configured ''/build/''
      in if \<not> suffix ''/'' publicPath then publicPath @ ''/'' else publicPath)"

text \<open>
  \<^verbatim>\<open>readConfig\<close> (config.ts, lines 111-177). The later snapshot of the file
  renames \<^verbatim>\<open>dataDirectory\<close> to \<^verbatim>\<open>loadersDirectory\<close> (default \<^verbatim>\<open>"loaders"\<close>) and is
  otherwise the same function.
\<close>

definition readConfig :: "Host \<Rightarrow> string option \<Rightarrow> error + RemixConfig" where
  "readConfig h remixRoot =
     (let rootDirectory = resolveRootDirectory h remixRoot;
          configFile = resolveConfigFile h remixRoot
      in case require h configFile of
           Loaded appConfig \<Rightarrow>
             (let appDirectory = path_resolve rootDirectory
                    (or_default (user_appDirectory appConfig) ''app'');
                  browserBuildDirectory = path_resolve rootDirectory
                    (or_default (user_browserBuildDirectory appConfig) ''public/build'');
                  dataDirectory = path_resolve rootDirectory
                    (or_default (user_dataDirectory appConfig) ''data'');
                  devServerPort = port_or_default (user_devServerPort appConfig) 8002;
                  publicPath = resolvePublicPath (user_publicPath appConfig)
              in case getConventionalRoutes h appDirectory dataDirectory of
                   Inl e \<Rightarrow> Inl e
                 | Inr conventional \<Rightarrow>
                     (case (case user_routes appConfig of
                              None \<Rightarrow> Inr conventional
                            | Some (Inl e) \<Rightarrow> Inl e
                            | Some (Inr manualRoutes) \<Rightarrow> Inr (conventional @ manualRoutes)) of
                        Inl e \<Rightarrow> Inl e
                      | Inr rs \<Rightarrow>
                          Inr \<lparr> appDirectory = appDirectory,
                                browserBuildDirectory = browserBuildDirectory,
                                dataDirectory = dataDirectory,
                                devServerPort = devServerPort,
                                publicPath = publicPath,
                                rootDirectory = rootDirectory,
                                routes = rs,
                                routeManifest = createRouteManifest rs [],
                                serverBuildDirectory = path_resolve rootDirectory
                                  (or_default (user_serverBuildDirectory appConfig) ''build'') \<rparr>))
         | _ \<Rightarrow> Inl (Error (''Missing remix.config.js in '' @ rootDirectory)))"

section \<open>routesConvention.ts\<close>

text \<open>
  \<^verbatim>\<open>s.replace(/c/g, d)\<close> for a single character \<^verbatim>\<open>c\<close>: every occurrence is replaced.
\<close>

definition replaceAll :: "char \<Rightarrow> char \<Rightarrow> string \<Rightarrow> string" where
  "replaceAll c d s = map (\<lambda>x. if x = c then d else x) s"

text \<open>
  A word character of a JavaScript regular expression (\<^verbatim>\<open>\w\<close>, without the unicode
  flag): an ASCII letter, a digit or the underscore.
\<close>

definition isWordChar :: "char \<Rightarrow> bool" where
  "isWordChar c = (c \<in> set (''abcdefghijklmnopqrstuvwxyz'' @ ''ABCDEFGHIJKLMNOPQRSTUVWXYZ''
                              @ ''0123456789_''))"

text \<open>
  \<^verbatim>\<open>\b\<close> holds at position \<open>i\<close> when exactly one of the characters before and at
  \<open>i\<close> is a word character; beyond either end of the string there is none.
\<close>

definition wordBoundary :: "string \<Rightarrow> nat \<Rightarrow> bool" where
  "wordBoundary s i =
     ((0 < i \<and> isWordChar (s ! (i - 1))) \<noteq> (i < length s \<and> isWordChar (s ! i)))"

text \<open>
  \<^verbatim>\<open>\/?index$\<close> matches from position \<open>i\<close> when what is left of the string from
  \<open>i\<close> on is \<^verbatim>\<open>/index\<close> or \<^verbatim>\<open>index\<close> (without the multiline flag \<^verbatim>\<open>$\<close> is the end
  of the input).
\<close>

definition slashIndexEndAt :: "string \<Rightarrow> nat \<Rightarrow> bool" where
  "slashIndexEndAt s i = (drop i s = ''/index'' \<or> drop i s = ''index'')"

text \<open>
  \<^verbatim>\<open>/\b\/?index$/.test(path)\<close>: the pattern matches from some position.
\<close>

definition testIndex :: "string \<Rightarrow> bool" where
  "testIndex s = list_ex (\<lambda>i. wordBoundary s i \<and> slashIndexEndAt s i) [0..<Suc (length s)]"

text \<open>
  \<^verbatim>\<open>path.replace(/\/?index$/, "")\<close>: the leftmost match is replaced by the empty
  string; a match runs to the end of the input, so what stays is the text before it.
\<close>

definition replaceIndex :: "string \<Rightarrow> string" where
  "replaceIndex s =
     (case find (slashIndexEndAt s) [0..<Suc (length s)] of
        None \<Rightarrow> s
      | Some i \<Rightarrow> take i s)"

text \<open>\<^verbatim>\<open>createRoutePath\<close> (routesConvention.ts, lines 118-121).\<close>

definition createRoutePath :: "string \<Rightarrow> string" where
  "createRoutePath routeId =
     (let path = replaceAll CHR ''.'' CHR ''/'' (replaceAll CHR ''$'' CHR '':'' routeId)
      in if testIndex path then replaceIndex path else path)"

text \<open>
  The claim's words for the first step: every \<^verbatim>\<open>$\<close> becomes \<^verbatim>\<open>:\<close> and every
  \<^verbatim>\<open>.\<close> becomes \<^verbatim>\<open>/\<close>; every other character stays.
\<close>

definition routePathChars :: "string \<Rightarrow> string" where
  "routePathChars s =
     map (\<lambda>c. if c = CHR ''$'' then CHR '':'' else if c = CHR ''.'' then CHR ''/'' else c) s"

text \<open>\<^verbatim>\<open>byLongestFirst\<close>, the comparator of the sort (lines 139-141).\<close>

definition byLongestFirst :: "string \<Rightarrow> string \<Rightarrow> int" where
  "byLongestFirst a b = int (length b) - int (length a)"

text \<open>
  \<^verbatim>\<open>Array.prototype.sort\<close> with a comparator. The sort is stable: of two elements that
  compare equal the one that came first stays first. Insertion from the right, placing
  an element before the first one it does not compare greater than, is such a sort.
\<close>

fun insertSorted :: "('a \<Rightarrow> 'a \<Rightarrow> int) \<Rightarrow> 'a \<Rightarrow> 'a list \<Rightarrow> 'a list" where
  "insertSorted cmp x [] = [x]"
| "insertSorted cmp x (y # ys) =
     (if cmp x y \<le> 0 then x # y # ys else y # insertSorted cmp x ys)"

definition array_sort :: "('a \<Rightarrow> 'a \<Rightarrow> int) \<Rightarrow> 'a list \<Rightarrow> 'a list" where
  "array_sort cmp xs = foldr (insertSorted cmp) xs []"

text \<open>
  \<^verbatim>\<open>findParentRouteId\<close> (lines 123-137): the first id of the sorted copy such that
  the child id starts with that id and a slash; \<^verbatim>\<open>undefined\<close> is \<open>None\<close>.
\<close>

definition findParentRouteId :: "string list \<Rightarrow> string \<Rightarrow> string option" where
  "findParentRouteId routeIds childRouteId =
     find (\<lambda>id'. prefix (id' @ ''/'') childRouteId) (array_sort byLongestFirst routeIds)"

subsection \<open>Conventional routes\<close>

text \<open>
  The collaborators that the resolver imports and that are not among the sources: the
  predicates \<^verbatim>\<open>isModuleFile\<close> and \<^verbatim>\<open>isStylesFile\<close> on file names and
  \<^verbatim>\<open>createRouteId\<close> of \<^verbatim>\<open>./routes\<close>. They are parameters of the resolver.
\<close>

record Collaborators =
  isModuleFile :: "string \<Rightarrow> bool"
  isStylesFile :: "string \<Rightarrow> bool"
  createRouteId :: "string \<Rightarrow> string"

text \<open>
  The value type of the dictionary \<^verbatim>\<open>routeFiles\<close>: the module and the styles file
  seen so far for a route id.
\<close>

record RouteFiles =
  module :: "string option"
  styles :: "string option"

type_synonym RouteFilesMap = "(string \<times> RouteFiles) list"

text \<open>
  \<^verbatim>\<open>path.relative(baseDir, path.resolve(dir, filename))\<close>, where \<open>rel\<close> is the path of
  \<^verbatim>\<open>dir\<close> relative to \<^verbatim>\<open>baseDir\<close> (empty for \<^verbatim>\<open>baseDir\<close> itself).
\<close>

definition relativePath :: "string \<Rightarrow> string \<Rightarrow> string" where
  "relativePath rel filename = (if rel = [] then filename else rel @ ''/'' @ filename)"

text \<open>
  \<^verbatim>\<open>visitFiles\<close> (lines 143-158) on the listing of a directory: a directory is
  visited recursively, a regular file is handed to the visitor, anything else is skipped.
  The visitor works on a state and may throw, which ends the visit.
\<close>

fun visitFiles :: "(string \<Rightarrow> 's \<Rightarrow> error + 's) \<Rightarrow> string \<Rightarrow> directory \<Rightarrow> 's \<Rightarrow> error + 's" where
  "visitFiles visitor rel [] st = Inr st"
| "visitFiles visitor rel ((filename, node) # rest) st =
     (case (case node of
              Dir entries \<Rightarrow> visitFiles visitor (relativePath rel filename) entries st
            | File \<Rightarrow> visitor (relativePath rel filename) st
            | Other \<Rightarrow> Inr st) of
        Inl e \<Rightarrow> Inl e
      | Inr st' \<Rightarrow> visitFiles visitor rel rest st')"

text \<open>
  \<^verbatim>\<open>fs.readdirSync\<close> of the entry \<open>name\<close> of a directory: it throws when there is no
  such entry or when the entry is not a directory.
\<close>

definition readdirSync :: "directory \<Rightarrow> string \<Rightarrow> error + directory" where
  "readdirSync parent name =
     (case map_of parent name of
        None \<Rightarrow> Inl (SystemError ''ENOENT'')
      | Some (Dir entries) \<Rightarrow> Inr entries
      | Some _ \<Rightarrow> Inl (SystemError ''ENOTDIR''))"

text \<open>
  The visitor of \<^verbatim>\<open>defineConventionalRoutes\<close> (lines 64-76) with
  \<^verbatim>\<open>findOrCreateFiles\<close> (lines 31-34): the entry of the route id is found or made, then the
  file is filed as module or as styles, or the visit throws.
\<close>

definition visitRouteFile :: "Collaborators \<Rightarrow> string \<Rightarrow> string \<Rightarrow> RouteFilesMap \<Rightarrow> error + RouteFilesMap" where
  "visitRouteFile c appDir file routeFiles =
     (let id' = createRouteId c (path_join ''routes'' file);
          files = (case map_of routeFiles id' of
                     Some found \<Rightarrow> found
                   | None \<Rightarrow> \<lparr> module = None, styles = None \<rparr>)
      in if isModuleFile c file
         then Inr (AList.update id' (files \<lparr> module := Some (path_join ''routes'' file) \<rparr>) routeFiles)
         else if isStylesFile c file
         then Inr (AList.update id' (files \<lparr> styles := Some (path_join ''routes'' file) \<rparr>) routeFiles)
         else Inl (Error (''Invalid route component file: ''
                          @ path_join appDir (path_join ''routes'' file))))"

text \<open>
  A \<^verbatim>\<open>for\<close> loop whose body may throw: the results are collected in order and the
  first throw ends the loop.
\<close>

fun forEach :: "('a \<Rightarrow> error + 'b) \<Rightarrow> 'a list \<Rightarrow> error + 'b list" where
  "forEach body [] = Inr []"
| "forEach body (x # xs) =
     (case body x of
        Inl e \<Rightarrow> Inl e
      | Inr y \<Rightarrow> (case forEach body xs of Inl e \<Rightarrow> Inl e | Inr ys \<Rightarrow> Inr (y # ys)))"

lemma forEach_cong [fundef_cong]:
  "xs = ys \<Longrightarrow> (\<And>x. x \<in> set ys \<Longrightarrow> f x = g x) \<Longrightarrow> forEach f xs = forEach g ys"
  by (induction ys arbitrary: xs) (auto split: sum.splits)

text \<open>
  Modelled from the spec: \<^verbatim>\<open>defineRoutes\<close> and the \<^verbatim>\<open>defineRoute\<close> it hands out are in
  \<^verbatim>\<open>./routes\<close>, which is not among the sources. By the spec's data model a route's id
  is derived from its module file, its \<^verbatim>\<open>parentId\<close> names the route it is defined in,
  and its children are the routes defined inside its callback. \<open>defineRoute\<close> makes the
  node; \<open>assignParents\<close> is the builder's bookkeeping of the nesting; neither throws.
\<close>

definition defineRoute :: "Collaborators \<Rightarrow> string \<Rightarrow> string \<Rightarrow> string option \<Rightarrow> ConfigRouteObject list \<Rightarrow> ConfigRouteObject" where
  "defineRoute c path file stylesOption nested =
     Route \<lparr> route_id = createRouteId c file, route_path = path, moduleFile = Some file,
             stylesFile = stylesOption, parentId = None \<rparr> (Some nested)"

fun assignParents :: "string option \<Rightarrow> ConfigRouteObject list \<Rightarrow> ConfigRouteObject list" where
  "assignParents p [] = []"
| "assignParents p (Route rest ch # rs) =
     Route (rest \<lparr> parentId := p \<rparr>)
       (case ch of None \<Rightarrow> None | Some cs \<Rightarrow> Some (assignParents (Some (route_id rest)) cs))
     # assignParents p rs"

definition defineRoutes :: "error + ConfigRouteObject list \<Rightarrow> error + ConfigRouteObject list" where
  "defineRoutes getRoutes = (case getRoutes of Inl e \<Rightarrow> Inl e | Inr rs \<Rightarrow> Inr (assignParents None rs))"

text \<open>
  The error \<^verbatim>\<open>There is a styles file for route "...", but no module\<close> (the quotes are
  character 0x22).
\<close>

definition stylesWithoutModule :: "string \<Rightarrow> error" where
  "stylesWithoutModule routeId =
     Error (''There is a styles file for route '' @ [CHR 0x22] @ routeId @ [CHR 0x22]
            @ '', but no module'')"

text \<open>
  The descent of \<^verbatim>\<open>defineNestedRoutes\<close> ends because a child id is longer than its
  parent id and no longer than all ids together.
\<close>

definition nestingMeasure :: "RouteFilesMap \<Rightarrow> string option \<Rightarrow> nat" where
  "nestingMeasure routeFiles parentRouteId =
     (case parentRouteId of
        None \<Rightarrow> Suc (Suc (sum_list (map (\<lambda>entry. length (fst entry)) routeFiles)))
      | Some p \<Rightarrow> Suc (sum_list (map (\<lambda>entry. length (fst entry)) routeFiles)) - length p)"

text \<open>
  \<^verbatim>\<open>defineNestedRoutes\<close> (lines 36-61). The loop runs over the entries of
  \<^verbatim>\<open>routeFiles\<close> whose key has the given parent; \<^verbatim>\<open>if (module)\<close> asks for a module
  that is defined and not the empty string; \<^verbatim>\<open>parentRouteId || "routes"\<close> is
  \<open>or_default\<close>.
\<close>

function defineNestedRoutes :: "Collaborators \<Rightarrow> RouteFilesMap \<Rightarrow> string option \<Rightarrow> error + ConfigRouteObject list" where
  "defineNestedRoutes c routeFiles parentRouteId =
     (let routeIds = map fst routeFiles;
          childRoutes = filter (\<lambda>entry. findParentRouteId routeIds (fst entry) = parentRouteId)
                          routeFiles
      in forEach
           (\<lambda>entry.
              let routeId = fst entry;
                  routePath = createRoutePath
                    (drop (length (or_default parentRouteId ''routes'') + 1) routeId)
              in case module (snd entry) of
                   None \<Rightarrow> Inl (stylesWithoutModule routeId)
                 | Some m \<Rightarrow>
                     if m \<noteq> [] then
                       (case defineNestedRoutes c routeFiles (Some routeId) of
                          Inl e \<Rightarrow> Inl e
                        | Inr nested \<Rightarrow> Inr (defineRoute c routePath m (styles (snd entry)) nested))
                     else Inl (stylesWithoutModule routeId))
           childRoutes)"
  by pat_completeness auto
termination
proof (relation "measure (\<lambda>(c, routeFiles, parentRouteId). nestingMeasure routeFiles parentRouteId)",
    goal_cases)
  case 1
  show ?case by simp
next
  case (2 c routeFiles parentRouteId x xa xb xc xd x2)
  from 2(1,2,3) have mem: "xb \<in> set routeFiles"
    and par: "findParentRouteId (map fst routeFiles) (fst xb) = parentRouteId"
    by auto
  have le: "length (fst xb) \<le> sum_list (map (\<lambda>entry. length (fst entry)) routeFiles)"
    using mem by (simp add: member_le_sum_list)
  show ?case
  proof (cases parentRouteId)
    case None
    with 2(4) show ?thesis by (simp add: nestingMeasure_def)
  next
    case (Some p)
    with par have "prefix (p @ ''/'') (fst xb)"
      by (auto simp add: findParentRouteId_def find_Some_iff)
    then have "length (p @ ''/'') \<le> length (fst xb)" by (rule prefix_length_le)
    then have "length p < length (fst xb)" by simp
    with le Some 2(4) show ?thesis by (simp add: nestingMeasure_def)
  qed
qed

declare defineNestedRoutes.simps [simp del]

text \<open>
  The error of \<^verbatim>\<open>findRootRouteModule\<close> and the function itself (lines 104-116): the
  first of \<^verbatim>\<open>name.js\<close>, \<^verbatim>\<open>name.jsx\<close>, \<^verbatim>\<open>name.tsx\<close> that exists in the app
  directory.
\<close>

definition noRootRouteModule :: error where
  "noRootRouteModule =
     Error ''No root route module found. Please create a file at `<appDir>/root.{js,jsx,tsx}`''"

definition findRootRouteModule :: "directory \<Rightarrow> string \<Rightarrow> error + string" where
  "findRootRouteModule appEntries name =
     (let potentialNames = map (\<lambda>ext. name @ ''.'' @ ext) [''js'', ''jsx'', ''tsx'']
      in case find (\<lambda>name'. existsSync appEntries name') potentialNames of
           Some name' \<Rightarrow> Inr name'
         | None \<Rightarrow> Inl noRootRouteModule)"

text \<open>
  \<^verbatim>\<open>shallowRoute.parentId = id\<close>, and \<^verbatim>\<open>defineLayoutRoutes\<close> (lines 78-99): the routes
  are defined first, then the root module is looked for.
\<close>

definition setParentId :: "string \<Rightarrow> ConfigRouteObject \<Rightarrow> ConfigRouteObject" where
  "setParentId id' shallowRoute =
     Route ((info shallowRoute) \<lparr> parentId := Some id' \<rparr>) (children shallowRoute)"

definition defineLayoutRoutes :: "Collaborators \<Rightarrow> RouteFilesMap \<Rightarrow> directory \<Rightarrow> string \<Rightarrow> error + ConfigRouteObject list" where
  "defineLayoutRoutes c routeFiles appEntries layoutRouteName =
     (let id' = ''__'' @ layoutRouteName
      in case defineRoutes (defineNestedRoutes c routeFiles None) of
           Inl e \<Rightarrow> Inl e
         | Inr rs \<Rightarrow>
             (let rs' = map (setParentId id') rs
              in case findRootRouteModule appEntries layoutRouteName of
                   Inl e \<Rightarrow> Inl e
                 | Inr rootModule \<Rightarrow>
                     Inr [Route \<lparr> route_id = id', route_path = ''/'',
                                  moduleFile = Some rootModule, stylesFile = None,
                                  parentId = None \<rparr> (Some rs')]))"

text \<open>
  \<^verbatim>\<open>defineConventionalRoutes\<close> (lines 20-102), with the listing of the app directory:
  the files under \<^verbatim>\<open>routes\<close> are visited first, which begins with reading that
  directory.
\<close>

definition defineConventionalRoutes :: "Collaborators \<Rightarrow> string \<Rightarrow> string \<Rightarrow> directory \<Rightarrow> error + ConfigRouteObject list" where
  "defineConventionalRoutes c layoutRouteId appDir appEntries =
     (case readdirSync appEntries ''routes'' of
        Inl e \<Rightarrow> Inl e
      | Inr routesEntries \<Rightarrow>
          (case visitFiles (visitRouteFile c appDir) [] routesEntries [] of
             Inl e \<Rightarrow> Inl e
           | Inr routeFiles \<Rightarrow> defineLayoutRoutes c routeFiles appEntries layoutRouteId))"

subsection \<open>When resolution fails, in the claim's words\<close>

text \<open>
  The files under \<^verbatim>\<open>routes\<close>, by their paths relative to it, in the order of the
  visit; whether \<^verbatim>\<open>routes\<close> is there and is a directory.
\<close>

fun listFiles :: "string \<Rightarrow> directory \<Rightarrow> string list" where
  "listFiles rel [] = []"
| "listFiles rel ((filename, node) # rest) =
     (case node of
        Dir entries \<Rightarrow> listFiles (relativePath rel filename) entries
      | File \<Rightarrow> [relativePath rel filename]
      | Other \<Rightarrow> [])
     @ listFiles rel rest"

definition routesReadable :: "directory \<Rightarrow> bool" where
  "routesReadable appEntries =
     (case map_of appEntries ''routes'' of Some (Dir entries) \<Rightarrow> True | _ \<Rightarrow> False)"

definition routeFilePaths :: "directory \<Rightarrow> string list" where
  "routeFilePaths appEntries =
     (case map_of appEntries ''routes'' of Some (Dir entries) \<Rightarrow> listFiles [] entries | _ \<Rightarrow> [])"

text \<open>
  A file that is neither a module file nor a styles file; a styles file such that no
  module file has its route id; no root layout module with one of the three extensions.
\<close>

definition unrecognizedFile :: "Collaborators \<Rightarrow> string list \<Rightarrow> bool" where
  "unrecognizedFile c files = list_ex (\<lambda>f. \<not> isModuleFile c f \<and> \<not> isStylesFile c f) files"

definition routeIdOfFile :: "Collaborators \<Rightarrow> string \<Rightarrow> string" where
  "routeIdOfFile c file = createRouteId c (path_join ''routes'' file)"

definition stylesButNoModule :: "Collaborators \<Rightarrow> string list \<Rightarrow> bool" where
  "stylesButNoModule c files =
     list_ex (\<lambda>f. \<not> isModuleFile c f \<and> isStylesFile c f
                 \<and> \<not> list_ex (\<lambda>g. isModuleFile c g \<and> routeIdOfFile c g = routeIdOfFile c f) files)
       files"

definition rootModuleMissing :: "directory \<Rightarrow> string \<Rightarrow> bool" where
  "rootModuleMissing appEntries name =
     (\<not> list_ex (\<lambda>ext. existsSync appEntries (name @ ''.'' @ ext)) [''js'', ''jsx'', ''tsx''])"

text \<open>
  Running a visitor over a list of files, and what the proofs say of a dictionary of
  route files: an id has a module, a module is truthy, no module is the empty string.
\<close>

fun foldE :: "('a \<Rightarrow> 's \<Rightarrow> error + 's) \<Rightarrow> 'a list \<Rightarrow> 's \<Rightarrow> error + 's" where
  "foldE f [] st = Inr st"
| "foldE f (x # xs) st = (case f x st of Inl e \<Rightarrow> Inl e | Inr st' \<Rightarrow> foldE f xs st')"

definition hasModule :: "RouteFilesMap \<Rightarrow> string \<Rightarrow> bool" where
  "hasModule routeFiles i =
     (case map_of routeFiles i of None \<Rightarrow> False | Some files \<Rightarrow> module files \<noteq> None)"

definition truthyModule :: "RouteFiles \<Rightarrow> bool" where
  "truthyModule files = (case module files of None \<Rightarrow> False | Some m \<Rightarrow> m \<noteq> [])"

definition noEmptyModule :: "RouteFilesMap \<Rightarrow> bool" where
  "noEmptyModule m = (\<forall>i files. map_of m i = Some files \<longrightarrow> module files \<noteq> Some [])"

section \<open>The build orchestrator\<close>

text \<open>
  Modelled from the spec: the enums \<^verbatim>\<open>BuildMode\<close> and \<^verbatim>\<open>BuildTarget\<close> come from
  \<^verbatim>\<open>@remix-run/core\<close>, which is not among the sources. The spec names their members:
  mode development or production, target browser or server. \<^verbatim>\<open>BuildOptions\<close> types
  both fields as plain strings, so any string can arrive.
\<close>

definition BuildMode_Development :: string where
  "BuildMode_Development = ''development''"

definition BuildMode_Production :: string where
  "BuildMode_Production = ''production''"

definition BuildTarget_Browser :: string where
  "BuildTarget_Browser = ''browser''"

definition BuildTarget_Server :: string where
  "BuildTarget_Server = ''server''"

record BuildOptions =
  mode :: string
  target :: string

text \<open>
  \<^verbatim>\<open>Partial<BuildOptions>\<close>: each field may be \<^verbatim>\<open>undefined\<close>. The callbacks of
  \<^verbatim>\<open>WatchOptions\<close> play no part in the options a build is made with and are left out.
\<close>

record PartialBuildOptions =
  mode_opt :: "string option"
  target_opt :: "string option"

text \<open>
  The \<^verbatim>\<open>external\<close> option handed to the bundling engine: a predicate on module ids
  (server) or a list of package names (\<^verbatim>\<open>ignorePackages\<close>, browser).
\<close>

datatype ExternalOption = ExternalPredicate "string \<Rightarrow> bool" | ExternalList "string list"

text \<open>
  Modelled from the spec: the bundling engine is a black box to the sources. It leaves a
  module id external when the predicate says so, or when the id is on the list.
\<close>

definition isExternal :: "ExternalOption \<Rightarrow> string \<Rightarrow> bool" where
  "isExternal ext id' =
     (case ext of ExternalPredicate f \<Rightarrow> f id' | ExternalList ids \<Rightarrow> id' \<in> set ids)"

text \<open>Node's \<^verbatim>\<open>path.isAbsolute\<close> on a POSIX host: the path starts with a slash.\<close>

definition path_isAbsolute :: "string \<Rightarrow> bool" where
  "path_isAbsolute p = prefix ''/'' p"

definition isLocalModuleId :: "string \<Rightarrow> bool" where
  "isLocalModuleId id' = (prefix ''.'' id' \<or> path_isAbsolute id')"

definition importHints :: "string list" where
  "importHints = [''css:'', ''img:'', ''url:'']"

definition isImportHint :: "string \<Rightarrow> bool" where
  "isImportHint id' = list_ex (\<lambda>hint. prefix hint id') importHints"

text \<open>
  \<^verbatim>\<open>getExternalOption\<close>. The constant \<^verbatim>\<open>ignorePackages\<close> of
  \<^verbatim>\<open>./compiler/browserIgnore\<close> is not among the sources and is a parameter.
\<close>

definition getExternalOption :: "string list \<Rightarrow> string \<Rightarrow> ExternalOption" where
  "getExternalOption ignorePackages tgt =
     (if tgt = BuildTarget_Server
      then ExternalPredicate (\<lambda>id'. \<not> isLocalModuleId id' \<and> \<not> isImportHint id')
      else ExternalList ignorePackages)"

text \<open>
  A \<^verbatim>\<open>RemixBuild\<close> is the engine's build with the options it was made with. Of the
  engine's input the model keeps the \<^verbatim>\<open>external\<close> option.
\<close>

record RemixBuild =
  options :: BuildOptions
  external :: ExternalOption

text \<open>
  \<^verbatim>\<open>build\<close> (lines 227-248 of the orchestrator). The second argument may be omitted
  (\<open>None\<close>), which the source reads as \<^verbatim>\<open>{}\<close>; a destructuring default applies to a
  field that is \<^verbatim>\<open>undefined\<close>.
\<close>

definition build :: "string list \<Rightarrow> RemixConfig \<Rightarrow> PartialBuildOptions option \<Rightarrow> RemixBuild" where
  "build ignorePackages config opts =
     (let given = (case opts of None \<Rightarrow> \<lparr> mode_opt = None, target_opt = None \<rparr> | Some p \<Rightarrow> p);
          mode' = (case mode_opt given of None \<Rightarrow> BuildMode_Production | Some m \<Rightarrow> m);
          target' = (case target_opt given of None \<Rightarrow> BuildTarget_Server | Some t \<Rightarrow> t);
          buildOptions = \<lparr> mode = mode', target = target' \<rparr>
      in \<lparr> options = buildOptions, external = getExternalOption ignorePackages target' \<rparr>)"

text \<open>
  \<^verbatim>\<open>watch\<close> (lines 259-311). The value is the build that \<^verbatim>\<open>onBuildEnd\<close> receives at a
  \<^verbatim>\<open>BUNDLE_END\<close> event: \<^verbatim>\<open>createBuild(event.result, buildOptions)\<close>.
\<close>

definition watch :: "string list \<Rightarrow> RemixConfig \<Rightarrow> PartialBuildOptions option \<Rightarrow> RemixBuild" where
  "watch ignorePackages config opts =
     (let given = (case opts of None \<Rightarrow> \<lparr> mode_opt = None, target_opt = None \<rparr> | Some p \<Rightarrow> p);
          mode' = (case mode_opt given of None \<Rightarrow> BuildMode_Development | Some m \<Rightarrow> m);
          target' = (case target_opt given of None \<Rightarrow> BuildTarget_Browser | Some t \<Rightarrow> t);
          buildOptions = \<lparr> mode = mode', target = target' \<rparr>
      in \<lparr> options = buildOptions, external = getExternalOption ignorePackages target' \<rparr>)"

text \<open>
  The naming part of the engine's output options. \<^verbatim>\<open>exports\<close> is \<^verbatim>\<open>undefined\<close> for the
  browser.
\<close>

record OutputOptions =
  format :: string
  exports :: "string option"
  assetFileNames :: string
  chunkFileNames :: string
  entryFileNames :: string

definition getOutputOptions :: "RemixBuild \<Rightarrow> OutputOptions" where
  "getOutputOptions b =
     (let mode' = mode (options b); target' = target (options b)
      in \<lparr> format = (if target' = BuildTarget_Server then ''cjs'' else ''esm''),
           exports = (if target' = BuildTarget_Server then Some ''named'' else None),
           assetFileNames =
             (if mode' = BuildMode_Production \<and> target' = BuildTarget_Browser
              then ''[name]-[hash][extname]'' else ''[name][extname]''),
           chunkFileNames = ''_shared/[name]-[hash].js'',
           entryFileNames =
             (if mode' = BuildMode_Production \<and> target' = BuildTarget_Browser
              then ''[name]-[hash].js'' else ''[name].js'') \<rparr>)"

text \<open>
  A file-name pattern carries a content hash when the engine's placeholder
  \<^verbatim>\<open>[hash]\<close> occurs in it.
\<close>

fun includes_str :: "string \<Rightarrow> string \<Rightarrow> bool" where
  "includes_str needle [] = (needle = [])"
| "includes_str needle (c # cs) = (prefix needle (c # cs) \<or> includes_str needle cs)"

definition carriesHash :: "string \<Rightarrow> bool" where
  "carriesHash pattern = includes_str ''[hash]'' pattern"

subsection \<open>Inputs of the engine\<close>

text \<open>\<^verbatim>\<open>entryExts\<close>: all file extensions supported for entry files.\<close>

definition entryExts :: "string list" where
  "entryExts = [''.js'', ''.jsx'', ''.ts'', ''.tsx'']"

text \<open>
  \<^verbatim>\<open>findFile\<close> (lines 399-410), with the listing of the directory \<^verbatim>\<open>dir\<close>: the
  loop over the extensions returns the first file that exists.
\<close>

fun findFile :: "directory \<Rightarrow> string \<Rightarrow> string \<Rightarrow> string list \<Rightarrow> string option" where
  "findFile entries dir basename [] = None"
| "findFile entries dir basename (ext # possibleExts) =
     (let file = path_resolve dir (basename @ ext)
      in if existsSync entries (basename @ ext) then Some file
         else findFile entries dir basename possibleExts)"

text \<open>The engine's \<^verbatim>\<open>input\<close> map, from input names to files, in insertion order.\<close>

type_synonym InputOption = "(string \<times> string) list"

text \<open>The error \<^verbatim>\<open>Missing "entry.client" file in ...\<close> (the quotes are character 0x22).\<close>

definition missingEntry :: "string \<Rightarrow> string \<Rightarrow> error" where
  "missingEntry name appDir =
     Error (''Missing '' @ [CHR 0x22] @ name @ [CHR 0x22] @ '' file in '' @ appDir)"

text \<open>
  The body of the loop over \<^verbatim>\<open>Object.keys(config.routeManifest)\<close>: for a route whose
  \<^verbatim>\<open>moduleFile\<close> is truthy (defined and not the empty string),
  \<^verbatim>\<open>input[route.id] = path.resolve(config.appDirectory, route.moduleFile)\<close>.
\<close>

definition addRouteInput :: "string \<Rightarrow> string \<times> RouteInfo \<Rightarrow> InputOption \<Rightarrow> InputOption" where
  "addRouteInput appDir entry input =
     (let route = snd entry
      in case moduleFile route of
           None \<Rightarrow> input
         | Some f \<Rightarrow>
             if f \<noteq> [] then js_assign (route_id route) (path_resolve appDir f) input
             else input)"

text \<open>
  \<^verbatim>\<open>getInputOption\<close> (lines 359-397), with the listing of the app directory. The
  entry file found is tested for truthiness, as the source does; the entry is the first
  property of the input, and the routes follow in the order of \<^verbatim>\<open>Object.keys\<close>.
\<close>

definition getInputOption :: "directory \<Rightarrow> RemixConfig \<Rightarrow> string \<Rightarrow> error + InputOption" where
  "getInputOption appEntries config tgt =
     (case
        (if tgt = BuildTarget_Browser then
           (case findFile appEntries (appDirectory config) ''entry.client'' entryExts of
              Some entryClientFile \<Rightarrow>
                if entryClientFile \<noteq> [] then Inr [(''entry.client'', entryClientFile)]
                else Inl (missingEntry ''entry.client'' (appDirectory config))
            | None \<Rightarrow> Inl (missingEntry ''entry.client'' (appDirectory config)))
         else if tgt = BuildTarget_Server then
           (case findFile appEntries (appDirectory config) ''entry.server'' entryExts of
              Some entryServerFile \<Rightarrow>
                if entryServerFile \<noteq> [] then Inr [(''entry.server'', entryServerFile)]
                else Inl (missingEntry ''entry.server'' (appDirectory config))
            | None \<Rightarrow> Inl (missingEntry ''entry.server'' (appDirectory config)))
         else Inr [])
      of
        Inl e \<Rightarrow> Inl e
      | Inr input \<Rightarrow>
          Inr (fold (addRouteInput (appDirectory config)) (js_entries (routeManifest config))
                 input))"

text \<open>
  The claim's words: a route that has a \<^verbatim>\<open>moduleFile\<close>; an entry module with one of the
  extensions is present; the name of the entry a target asks for.
\<close>

definition hasModuleFile :: "RouteInfo \<Rightarrow> bool" where
  "hasModuleFile route = (case moduleFile route of None \<Rightarrow> False | Some f \<Rightarrow> f \<noteq> [])"

text \<open>
  A route that is given an input of its own: it has a \<^verbatim>\<open>moduleFile\<close> and its id is a
  key that an assignment can create.
\<close>

definition givesInput :: "RouteInfo \<Rightarrow> bool" where
  "givesInput route = (hasModuleFile route \<and> route_id route \<noteq> ''__proto__'')"

definition entryPresent :: "directory \<Rightarrow> string \<Rightarrow> bool" where
  "entryPresent entries basename = list_ex (\<lambda>ext. existsSync entries (basename @ ext)) entryExts"

definition entryName :: "string \<Rightarrow> string list" where
  "entryName tgt =
     (if tgt = BuildTarget_Browser then [''entry.client'']
      else if tgt = BuildTarget_Server then [''entry.server''] else [])"

section \<open>Example inputs\<close>

text \<open>
  A host whose working directory is \<^verbatim>\<open>/site\<close>, whose config file sets
  \<^verbatim>\<open>publicPath: "/build"\<close> and nothing else, and whose route tree is empty.
\<close>

definition exampleAppConfig :: AppConfig where
  "exampleAppConfig =
     \<lparr> user_appDirectory = None, user_browserBuildDirectory = None, user_dataDirectory = None,
       user_devServerPort = None, user_publicPath = Some ''/build'', user_routes = None,
       user_serverBuildDirectory = None \<rparr>"

definition exampleHost :: Host where
  "exampleHost =
     \<lparr> env_REMIX_ROOT = None,
       process_cwd = ''/site'',
       require = (\<lambda>file. if file = ''/site/remix.config.js'' then Loaded exampleAppConfig
                          else ModuleNotFound),
       getConventionalRoutes = (\<lambda>appDir dataDir. Inr []) \<rparr>"

text \<open>
  Two route trees. In the first every child names its parent: a root with the children
  \<^verbatim>\<open>routes/gists\<close> (itself with one child) and \<^verbatim>\<open>routes/about\<close>. In the second the
  only child carries no \<^verbatim>\<open>parentId\<close>.
\<close>

definition exampleRoute :: "string \<Rightarrow> string option \<Rightarrow> RouteInfo" where
  "exampleRoute i p =
     \<lparr> route_id = i, route_path = ''/'', moduleFile = Some (i @ ''.tsx''), stylesFile = None,
       parentId = p \<rparr>"

definition exampleRoutes :: "ConfigRouteObject list" where
  "exampleRoutes =
     [Route (exampleRoute ''__root'' None)
        (Some [Route (exampleRoute ''routes/gists'' (Some ''__root''))
                 (Some [Route (exampleRoute ''routes/gists/$username'' (Some ''routes/gists''))
                          None]),
               Route (exampleRoute ''routes/about'' (Some ''__root'')) (Some [])])]"

definition orphanRoutes :: "ConfigRouteObject list" where
  "orphanRoutes =
     [Route (exampleRoute ''a'' None) (Some [Route (exampleRoute ''b'' None) None])]"

text \<open>
  A tree whose only child names its parent and has the id \<^verbatim>\<open>__proto__\<close>, and a tree of
  one route whose id is the name of the browser's entry.
\<close>

definition protoRoutes :: "ConfigRouteObject list" where
  "protoRoutes =
     [Route (exampleRoute ''a'' None)
        (Some [Route (exampleRoute ''__proto__'' (Some ''a'')) None])]"

definition collisionRoutes :: "ConfigRouteObject list" where
  "collisionRoutes =
     [Route \<lparr> route_id = ''entry.client'', route_path = ''/'',
               moduleFile = Some ''routes/x.tsx'', stylesFile = None, parentId = None \<rparr> None]"

text \<open>
  An app directory with both entry modules, a root layout and four files under
  \<^verbatim>\<open>routes\<close>, and a resolved configuration over \<open>exampleRoutes\<close>.
\<close>

definition exampleAppDir :: directory where
  "exampleAppDir =
     [(''entry.client.tsx'', File), (''entry.server.jsx'', File), (''root.tsx'', File),
      (''routes'', Dir [(''about.tsx'', File), (''gists'', Dir [(''$username.tsx'', File)]),
                        (''gists.css'', File), (''gists.tsx'', File)])]"

definition exampleConfig :: RemixConfig where
  "exampleConfig =
     \<lparr> appDirectory = ''/site/app'', browserBuildDirectory = ''/site/public/build'',
       dataDirectory = ''/site/data'', devServerPort = 8002, publicPath = ''/build/'',
       rootDirectory = ''/site'', routes = exampleRoutes,
       routeManifest = createRouteManifest exampleRoutes [],
       serverBuildDirectory = ''/site/build'' \<rparr>"

definition collisionConfig :: RemixConfig where
  "collisionConfig =
     exampleConfig \<lparr> routes := collisionRoutes,
                     routeManifest := createRouteManifest collisionRoutes [] \<rparr>"

text \<open>
  Collaborators for the examples: module files end in \<^verbatim>\<open>.js\<close>, \<^verbatim>\<open>.jsx\<close> or
  \<^verbatim>\<open>.tsx\<close>, styles files in \<^verbatim>\<open>.css\<close>, and the route id of a file is its path without
  the extension, as the spec describes \<^verbatim>\<open>createRouteId\<close>.
\<close>

definition stripExtension :: "string \<Rightarrow> string" where
  "stripExtension file =
     (if CHR ''.'' \<in> set file then rev (tl (dropWhile (\<lambda>ch. ch \<noteq> CHR ''.'') (rev file))) else file)"

definition exampleCollaborators :: Collaborators where
  "exampleCollaborators =
     \<lparr> isModuleFile = (\<lambda>f. suffix ''.js'' f \<or> suffix ''.jsx'' f \<or> suffix ''.tsx'' f),
       isStylesFile = (\<lambda>f. suffix ''.css'' f),
       createRouteId = stripExtension \<rparr>"

section \<open>Auxiliary facts\<close>

lemma resolvePublicPath_suffix: "suffix ''/'' (resolvePublicPath p)"
  by (simp add: resolvePublicPath_def Let_def)

lemma resolvePublicPath_idem:
  "resolvePublicPath (Some (resolvePublicPath p)) = resolvePublicPath p"
  using resolvePublicPath_suffix[of p]
  by (auto simp add: resolvePublicPath_def Let_def or_default_def suffix_def split: option.splits)

lemma readConfig_publicPath:
  "readConfig h r = Inr cfg \<Longrightarrow>
     \<exists>ac. require h (resolveConfigFile h r) = Loaded ac
        \<and> publicPath cfg = resolvePublicPath (user_publicPath ac)"
  by (auto simp add: readConfig_def Let_def split: require_result.splits sum.splits option.splits)

lemma readConfig_exampleHost:
  "readConfig exampleHost None =
     Inr \<lparr> appDirectory = ''/site/app'', browserBuildDirectory = ''/site/public/build'',
           dataDirectory = ''/site/data'', devServerPort = 8002, publicPath = ''/build/'',
           rootDirectory = ''/site'', routes = [], routeManifest = [],
           serverBuildDirectory = ''/site/build'' \<rparr>"
  by (simp add: readConfig_def exampleHost_def exampleAppConfig_def resolveRootDirectory_def
      resolveConfigFile_def resolvePublicPath_def or_default_def port_or_default_def Let_def
      suffix_def path_resolve_def normalizeStep_def)

subsection \<open>The index pattern of \<^verbatim>\<open>createRoutePath\<close>\<close>

lemma replaceAll_routePathChars:
  "replaceAll CHR ''.'' CHR ''/'' (replaceAll CHR ''$'' CHR '':'' s) = routePathChars s"
  by (simp add: replaceAll_def routePathChars_def)

lemma find_upt_first:
  assumes "i < m" "P i" "\<And>j. j < i \<Longrightarrow> \<not> P j"
  shows "find P [0..<m] = Some i"
  using assms by (auto simp add: find_Some_iff intro!: exI[of _ i])

lemma slashIndexEndAt_suffix: "slashIndexEndAt s i \<Longrightarrow> suffix ''index'' s"
proof -
  assume "slashIndexEndAt s i"
  then have "drop i s = ''/index'' \<or> drop i s = ''index''"
    by (simp add: slashIndexEndAt_def)
  moreover have "s = take i s @ drop i s" by simp
  ultimately have "s = (take i s @ ''/'') @ ''index'' \<or> s = take i s @ ''index''"
    by (metis append.assoc append_Cons append_Nil)
  then show ?thesis
    by (metis suffixI)
qed

lemma slashIndexEndAt_length:
  "slashIndexEndAt s i \<Longrightarrow> length s = i + 6 \<or> length s = i + 5"
proof -
  assume "slashIndexEndAt s i"
  then have "length (drop i s) = 6 \<or> length (drop i s) = 5"
    unfolding slashIndexEndAt_def by (elim disjE) simp_all
  then show ?thesis by (simp only: length_drop) arith
qed

lemma testIndex_iff:
  "testIndex s \<longleftrightarrow> (\<exists>i\<le>length s. wordBoundary s i \<and> slashIndexEndAt s i)"
proof -
  have "set [0..<Suc (length s)] = {i. i \<le> length s}" by auto
  then show ?thesis
    unfolding testIndex_def list_ex_iff by blast
qed

lemma no_testIndex: "\<not> suffix ''index'' s \<Longrightarrow> \<not> testIndex s"
  by (auto simp add: testIndex_iff dest: slashIndexEndAt_suffix)

lemma path_slash_index:
  assumes "p = q @ ''/index''"
  shows "testIndex p" and "replaceIndex p = q"
proof -
  have len: "length p = length q + 6" using assms by simp
  have "slashIndexEndAt p (Suc (length q))"
    using assms by (simp add: slashIndexEndAt_def)
  moreover have "wordBoundary p (Suc (length q))"
    using assms by (simp add: wordBoundary_def nth_append isWordChar_def)
  ultimately show "testIndex p"
    unfolding testIndex_iff using len by (intro exI[of _ "Suc (length q)"]) simp
  have here: "slashIndexEndAt p (length q)"
    using assms by (simp add: slashIndexEndAt_def)
  have before: "\<not> slashIndexEndAt p j" if "j < length q" for j
    using slashIndexEndAt_length[of p j] len that by auto
  have "find (slashIndexEndAt p) [0..<Suc (length p)] = Some (length q)"
    by (rule find_upt_first) (use len here before in auto)
  then show "replaceIndex p = q"
    using assms by (simp add: replaceIndex_def)
qed

lemma path_other_index:
  assumes "p = q @ c # ''index''" and "\<not> isWordChar c" and "c \<noteq> CHR ''/''"
  shows "testIndex p" and "replaceIndex p = q @ [c]"
proof -
  have len: "length p = length q + 6" using assms by simp
  have here: "slashIndexEndAt p (Suc (length q))"
    using assms by (simp add: slashIndexEndAt_def)
  moreover have "wordBoundary p (Suc (length q))"
    using assms by (simp add: wordBoundary_def nth_append isWordChar_def)
  ultimately show "testIndex p"
    unfolding testIndex_iff using len by (intro exI[of _ "Suc (length q)"]) simp
  have "\<not> slashIndexEndAt p (length q)"
    using assms by (simp add: slashIndexEndAt_def)
  moreover have "\<not> slashIndexEndAt p j" if "j < length q" for j
    using slashIndexEndAt_length[of p j] len that by auto
  ultimately have before: "\<not> slashIndexEndAt p j" if "j < Suc (length q)" for j
    using that by (cases "j = length q") auto
  have "find (slashIndexEndAt p) [0..<Suc (length p)] = Some (Suc (length q))"
    by (rule find_upt_first) (use len here before in auto)
  then show "replaceIndex p = q @ [c]"
    using assms by (simp add: replaceIndex_def)
qed

lemma path_word_index:
  assumes "p = q @ c # ''index''" and "isWordChar c"
  shows "\<not> testIndex p"
proof
  assume "testIndex p"
  then obtain i where i: "i \<le> length p" "wordBoundary p i" "slashIndexEndAt p i"
    by (auto simp add: testIndex_iff)
  have len: "length p = length q + 6" using assms by simp
  have c: "c \<noteq> CHR ''/''" using assms(2) by (auto simp add: isWordChar_def)
  from slashIndexEndAt_length[OF i(3)] len have "i = length q \<or> i = Suc (length q)" by auto
  then show False
  proof
    assume "i = length q"
    with i(3) assms c show False by (simp add: slashIndexEndAt_def)
  next
    assume "i = Suc (length q)"
    with i(2) assms show False
      by (simp add: wordBoundary_def nth_append isWordChar_def)
  qed
qed

subsection \<open>Parent inference\<close>

lemma insertSorted_insort_key:
  "insertSorted byLongestFirst x ys = insort_key (\<lambda>s. - int (length s)) x ys"
  by (induction ys) (auto simp add: byLongestFirst_def)

lemma array_sort_sort_key:
  "array_sort byLongestFirst xs = sort_key (\<lambda>s. - int (length s)) xs"
  by (induction xs) (simp_all add: array_sort_def sort_key_def insertSorted_insort_key)

lemma set_array_sort: "set (array_sort byLongestFirst xs) = set xs"
  by (simp add: array_sort_sort_key)

lemma array_sort_longest_first:
  assumes "i < j" "j < length xs"
  shows "length (array_sort byLongestFirst xs ! j) \<le> length (array_sort byLongestFirst xs ! i)"
proof -
  let ?f = "\<lambda>s::string. - int (length s)"
  let ?ys = "array_sort byLongestFirst xs"
  have len: "length ?ys = length xs" by (simp add: array_sort_sort_key)
  have "sorted (map ?f ?ys)" by (simp add: array_sort_sort_key)
  then have "map ?f ?ys ! i \<le> map ?f ?ys ! j"
    using assms len by (intro sorted_nth_mono) auto
  then show ?thesis using assms len by simp
qed

lemma same_length_prefix:
  assumes "prefix (x @ s) b" "prefix (a @ s) b" "length x = length a"
  shows "x = a"
proof -
  from assms(1) obtain u where "b = (x @ s) @ u" by (auto simp add: prefix_def)
  moreover from assms(2) obtain v where "b = (a @ s) @ v" by (auto simp add: prefix_def)
  ultimately have "x @ (s @ u) = a @ (s @ v)" by simp
  with assms(3) show ?thesis by simp
qed

lemma findParentRouteId_Some_iff:
  "findParentRouteId ids b = Some a \<longleftrightarrow>
     a \<in> set ids \<and> prefix (a @ ''/'') b
     \<and> (\<forall>a' \<in> set ids. prefix (a' @ ''/'') b \<longrightarrow> length a' \<le> length a)"
  (is "?L \<longleftrightarrow> ?R")
proof
  let ?ys = "array_sort byLongestFirst ids"
  let ?P = "\<lambda>id'. prefix (id' @ ''/'') b"
  have len: "length ?ys = length ids" by (simp add: array_sort_sort_key)
  {
    assume ?L
    then obtain i where i: "i < length ?ys" "?P (?ys ! i)" "a = ?ys ! i" "\<forall>j<i. \<not> ?P (?ys ! j)"
      by (auto simp add: findParentRouteId_def find_Some_iff)
    have "a \<in> set ids" using i(1,3) set_array_sort[of ids] by (metis nth_mem)
    moreover have "length a' \<le> length a" if a': "a' \<in> set ids" "?P a'" for a'
    proof -
      from a'(1) obtain k where k: "k < length ?ys" "?ys ! k = a'"
        using set_array_sort[of ids] by (metis in_set_conv_nth)
      have "\<not> k < i" using i(4) k(2) a'(2) by auto
      then have "k = i \<or> i < k" by auto
      then show ?thesis
        using array_sort_longest_first[of i k ids] k len i(3) by auto
    qed
    ultimately show ?R using i(2,3) by auto
  }
  {
    assume R: ?R
    then have "a \<in> set ?ys" by (simp add: set_array_sort)
    with R have "find ?P ?ys \<noteq> None" by (auto simp add: find_None_iff)
    then obtain x where x: "find ?P ?ys = Some x" by auto
    then obtain i where i: "i < length ?ys" "?P (?ys ! i)" "x = ?ys ! i" "\<forall>j<i. \<not> ?P (?ys ! j)"
      by (auto simp add: find_Some_iff)
    have xin: "x \<in> set ids" using i(1,3) set_array_sort[of ids] by (metis nth_mem)
    with R i(2,3) have le: "length x \<le> length a" by auto
    from \<open>a \<in> set ?ys\<close> obtain k where k: "k < length ?ys" "?ys ! k = a"
      by (metis in_set_conv_nth)
    have "\<not> k < i" using i(4) k(2) R by auto
    then have "k = i \<or> i < k" by auto
    then have "length a \<le> length x"
      using array_sort_longest_first[of i k ids] k len i(3) by auto
    with le have "length x = length a" by simp
    with i(2,3) R have "x = a" by (intro same_length_prefix[of x "''/''" b a]) auto
    with x show ?L by (simp add: findParentRouteId_def)
  }
qed

lemma findParentRouteId_None_iff:
  "findParentRouteId ids b = None \<longleftrightarrow> (\<forall>a \<in> set ids. \<not> prefix (a @ ''/'') b)"
  by (auto simp add: findParentRouteId_def find_None_iff set_array_sort)

subsection \<open>Flattening a route tree\<close>

lemma js_assign_fresh:
  "k \<noteq> ''__proto__'' \<Longrightarrow> k \<notin> fst ` set m \<Longrightarrow> js_assign k v m = m @ [(k, v)]"
  by (induction m) (auto simp add: js_assign_def)

lemma createRouteManifest_append:
  "distinct (map fst m @ map route_id (routeInfos rs)) \<Longrightarrow>
   ''__proto__'' \<notin> set (map route_id (routeInfos rs)) \<Longrightarrow>
     createRouteManifest rs m = m @ manifestOf (routeInfos rs)"
proof (induction rs m rule: createRouteManifest.induct)
  case (1 manifest)
  then show ?case by (simp add: manifestOf_def)
next
  case (2 rest ch rs manifest)
  have fresh: "route_id rest \<notin> fst ` set manifest" using 2(3) by auto
  have plain: "route_id rest \<noteq> ''__proto__''" using 2(4) by auto
  note assign = js_assign_fresh[OF plain fresh]
  let ?m1 = "manifest @ [(route_id rest, rest)]"
  show ?case
  proof (cases ch)
    case None
    have "distinct (map fst ?m1 @ map route_id (routeInfos rs))"
      using 2(3) None by auto
    moreover have "''__proto__'' \<notin> set (map route_id (routeInfos rs))"
      using 2(4) None by auto
    ultimately have "createRouteManifest rs ?m1 = ?m1 @ manifestOf (routeInfos rs)"
      using 2(2) None by (simp add: assign)
    then show ?thesis using None by (simp add: assign manifestOf_def)
  next
    case (Some cs)
    have d1: "distinct (map fst ?m1 @ map route_id (routeInfos cs))"
      using 2(3) Some by auto
    have p1: "''__proto__'' \<notin> set (map route_id (routeInfos cs))"
      using 2(4) Some by auto
    have c1: "createRouteManifest cs ?m1 = ?m1 @ manifestOf (routeInfos cs)"
      using 2(1)[OF Some] d1 p1 by (simp add: assign)
    have "distinct (map fst (?m1 @ manifestOf (routeInfos cs)) @ map route_id (routeInfos rs))"
      using 2(3) Some by (auto simp add: manifestOf_def comp_def)
    moreover have "''__proto__'' \<notin> set (map route_id (routeInfos rs))"
      using 2(4) Some by auto
    ultimately have "createRouteManifest rs (?m1 @ manifestOf (routeInfos cs))
               = (?m1 @ manifestOf (routeInfos cs)) @ manifestOf (routeInfos rs)"
      using 2(2) Some c1 by (simp add: assign)
    then show ?thesis using Some c1 by (simp add: assign manifestOf_def)
  qed
qed

lemma map_of_manifestOf:
  "distinct (map route_id infos) \<Longrightarrow> r \<in> set infos \<Longrightarrow>
     map_of (manifestOf infos) (route_id r) = Some r"
proof -
  assume d: "distinct (map route_id infos)" and r: "r \<in> set infos"
  from d have "distinct (map fst (manifestOf infos))"
    by (simp add: manifestOf_def comp_def)
  moreover from r have "(route_id r, r) \<in> set (manifestOf infos)"
    by (auto simp add: manifestOf_def)
  ultimately show ?thesis by simp
qed

lemma manifestEdges_append: "manifestEdges (a @ b) = manifestEdges a @ manifestEdges b"
  by (simp add: manifestEdges_def)

lemma manifestOf_append: "manifestOf (a @ b) = manifestOf a @ manifestOf b"
  by (simp add: manifestOf_def)

lemma manifestEdges_consistent:
  "parentsConsistent p rs \<Longrightarrow>
     set (manifestEdges (manifestOf (routeInfos rs))) =
       (case p of None \<Rightarrow> {} | Some q \<Rightarrow> (\<lambda>c. (q, route_id (info c))) ` set rs)
       \<union> set (treeEdges rs)"
proof (induction p rs rule: parentsConsistent.induct)
  case (1 p)
  then show ?case by (simp add: manifestEdges_def manifestOf_def split: option.splits)
next
  case (2 p rest ch rs)
  have here: "set (manifestEdges (manifestOf [rest])) =
                (case p of None \<Rightarrow> {} | Some q \<Rightarrow> {(q, route_id rest)})"
    using 2(3) by (auto simp add: manifestEdges_def manifestOf_def split: option.splits)
  have tl: "set (manifestEdges (manifestOf (routeInfos rs))) =
       (case p of None \<Rightarrow> {} | Some q \<Rightarrow> (\<lambda>c. (q, route_id (info c))) ` set rs)
       \<union> set (treeEdges rs)"
    using 2(2) 2(3) by simp
  show ?case
  proof (cases ch)
    case None
    have "routeInfos (Route rest ch # rs) = [rest] @ routeInfos rs" using None by simp
    then have "set (manifestEdges (manifestOf (routeInfos (Route rest ch # rs)))) =
      set (manifestEdges (manifestOf [rest])) \<union> set (manifestEdges (manifestOf (routeInfos rs)))"
      by (simp only: manifestOf_append manifestEdges_append set_append)
    then show ?thesis using here tl None by (auto split: option.splits)
  next
    case (Some cs)
    have ch: "set (manifestEdges (manifestOf (routeInfos cs))) =
       (\<lambda>c. (route_id rest, route_id (info c))) ` set cs \<union> set (treeEdges cs)"
      using 2(1)[OF Some] 2(3) Some by simp
    have "routeInfos (Route rest ch # rs) = [rest] @ routeInfos cs @ routeInfos rs"
      using Some by simp
    then have "set (manifestEdges (manifestOf (routeInfos (Route rest ch # rs)))) =
      set (manifestEdges (manifestOf [rest])) \<union> set (manifestEdges (manifestOf (routeInfos cs)))
      \<union> set (manifestEdges (manifestOf (routeInfos rs)))"
      by (simp only: manifestOf_append manifestEdges_append set_append Un_assoc)
    then show ?thesis using here tl ch Some by (auto split: option.splits)
  qed
qed

subsection \<open>Inputs of the engine\<close>

lemma path_resolve_nonempty: "path_resolve dir p \<noteq> []"
  by (cases "foldl normalizeStep [] (splitSlash (if prefix ''/'' p then p else dir @ ''/'' @ p))")
    (simp_all add: path_resolve_def Let_def)

lemma findFile_None_iff:
  "findFile entries dir basename exts = None \<longleftrightarrow>
     \<not> list_ex (\<lambda>ext. existsSync entries (basename @ ext)) exts"
  by (induction exts) (auto simp add: Let_def)

lemma findFile_Some:
  "findFile entries dir basename exts = Some f \<Longrightarrow>
     \<exists>ext \<in> set exts. existsSync entries (basename @ ext) \<and> f = path_resolve dir (basename @ ext)"
  by (induction exts) (auto simp add: Let_def split: if_splits)

lemma mset_js_entries: "mset (js_entries obj) = mset obj"
  by (simp add: js_entries_def)

lemma set_js_entries: "set (js_entries obj) = set obj"
  using mset_js_entries[of obj] by (metis set_mset_mset)

lemma distinct_map_js_entries:
  "distinct (map g (js_entries obj)) \<longleftrightarrow> distinct (map g obj)"
proof -
  have "mset (map g (js_entries obj)) = mset (map g obj)"
    by (simp add: mset_js_entries)
  then show ?thesis by (rule mset_eq_imp_distinct_iff)
qed

lemma addRouteInput_keys:
  "set (map fst (addRouteInput d e input)) =
     set (map fst input) \<union> (if givesInput (snd e) then {route_id (snd e)} else {})"
  by (auto simp add: addRouteInput_def givesInput_def hasModuleFile_def js_assign_def Let_def
      dom_update split: option.splits)

lemma fold_addRouteInput_keys:
  "set (map fst (fold (addRouteInput d) m input)) =
     set (map fst input) \<union> route_id ` {r \<in> snd ` set m. givesInput r}"
proof (induction m arbitrary: input)
  case Nil
  then show ?case by simp
next
  case (Cons e m)
  show ?case
    unfolding fold_Cons comp_def Cons.IH addRouteInput_keys by auto
qed

lemma fold_addRouteInput_other:
  "key \<notin> route_id ` {r \<in> snd ` set m. givesInput r} \<Longrightarrow>
     map_of (fold (addRouteInput d) m input) key = map_of input key"
proof (induction m arbitrary: input)
  case Nil
  then show ?case by simp
next
  case (Cons e m)
  then have "map_of (addRouteInput d e input) key = map_of input key"
    by (auto simp add: addRouteInput_def givesInput_def hasModuleFile_def js_assign_def Let_def
        update_conv' split: option.splits)
  moreover have "key \<notin> route_id ` {r \<in> snd ` set m. givesInput r}"
    using Cons.prems by auto
  ultimately show ?case using Cons.IH by simp
qed

lemma fold_addRouteInput_value:
  "distinct (map (\<lambda>e. route_id (snd e)) m) \<Longrightarrow> (k, r) \<in> set m \<Longrightarrow> moduleFile r = Some f \<Longrightarrow>
     f \<noteq> [] \<Longrightarrow> route_id r \<noteq> ''__proto__'' \<Longrightarrow>
     map_of (fold (addRouteInput d) m input) (route_id r) = Some (path_resolve d f)"
proof (induction m arbitrary: input)
  case Nil
  then show ?case by simp
next
  case (Cons e m)
  show ?case
  proof (cases "e = (k, r)")
    case True
    have "route_id r \<notin> route_id ` snd ` set m" using Cons.prems(1) True by force
    then have "route_id r \<notin> route_id ` {r \<in> snd ` set m. givesInput r}" by auto
    then have "map_of (fold (addRouteInput d) m (addRouteInput d e input)) (route_id r)
               = map_of (addRouteInput d e input) (route_id r)"
      by (rule fold_addRouteInput_other)
    also have "\<dots> = Some (path_resolve d f)"
      using True Cons.prems(3,4,5) by (simp add: addRouteInput_def js_assign_def update_conv')
    finally show ?thesis by simp
  next
    case False
    then have "(k, r) \<in> set m" using Cons.prems(2) by auto
    moreover have "distinct (map (\<lambda>e. route_id (snd e)) m)" using Cons.prems(1) by simp
    ultimately show ?thesis using Cons.IH Cons.prems(3,4,5) by simp
  qed
qed

lemma getInputOption_Inl_iff:
  "getInputOption es cfg tgt = Inl e \<longleftrightarrow>
     (tgt = BuildTarget_Browser \<and> \<not> entryPresent es ''entry.client''
        \<and> e = missingEntry ''entry.client'' (appDirectory cfg))
     \<or> (tgt = BuildTarget_Server \<and> \<not> entryPresent es ''entry.server''
        \<and> e = missingEntry ''entry.server'' (appDirectory cfg))"
proof -
  have ne: "BuildTarget_Server \<noteq> BuildTarget_Browser"
    by (simp add: BuildTarget_Server_def BuildTarget_Browser_def)
  show ?thesis
  proof (cases "tgt = BuildTarget_Browser")
    case True
    show ?thesis
    proof (cases "findFile es (appDirectory cfg) ''entry.client'' entryExts")
      case None
      then have "\<not> entryPresent es ''entry.client''"
        by (simp add: findFile_None_iff entryPresent_def)
      with None True ne show ?thesis by (auto simp add: getInputOption_def)
    next
      case (Some f)
      then have "entryPresent es ''entry.client''"
        using findFile_None_iff[of es "appDirectory cfg" "''entry.client''" entryExts]
        by (simp add: entryPresent_def)
      moreover have "f \<noteq> []" using findFile_Some[OF Some] by (auto simp add: path_resolve_nonempty)
      ultimately show ?thesis using Some True ne by (auto simp add: getInputOption_def)
    qed
  next
    case nb: False
    show ?thesis
    proof (cases "tgt = BuildTarget_Server")
      case True
      show ?thesis
      proof (cases "findFile es (appDirectory cfg) ''entry.server'' entryExts")
        case None
        then have "\<not> entryPresent es ''entry.server''"
          by (simp add: findFile_None_iff entryPresent_def)
        with None True ne show ?thesis by (auto simp add: getInputOption_def)
      next
        case (Some f)
        then have "entryPresent es ''entry.server''"
          using findFile_None_iff[of es "appDirectory cfg" "''entry.server''" entryExts]
          by (simp add: entryPresent_def)
        moreover have "f \<noteq> []" using findFile_Some[OF Some] by (auto simp add: path_resolve_nonempty)
        ultimately show ?thesis using Some True ne by (auto simp add: getInputOption_def)
      qed
    next
      case False
      with nb show ?thesis by (simp add: getInputOption_def)
    qed
  qed
qed

lemma getInputOption_Inr:
  assumes "getInputOption es cfg tgt = Inr input"
  shows "\<exists>input0. input = fold (addRouteInput (appDirectory cfg))
                                (js_entries (routeManifest cfg)) input0
           \<and> map fst input0 = entryName tgt
           \<and> (\<forall>name \<in> set (entryName tgt).
                  findFile es (appDirectory cfg) name entryExts = map_of input0 name
                  \<and> (\<exists>ext \<in> set entryExts. existsSync es (name @ ext)
                        \<and> input0 = [(name, path_resolve (appDirectory cfg) (name @ ext))]))"
proof -
  have ne: "BuildTarget_Server \<noteq> BuildTarget_Browser"
    by (simp add: BuildTarget_Server_def BuildTarget_Browser_def)
  consider (b) "tgt = BuildTarget_Browser" | (s) "tgt = BuildTarget_Server"
    | (o) "tgt \<noteq> BuildTarget_Browser" "tgt \<noteq> BuildTarget_Server" by blast
  then show ?thesis
  proof cases
    case b
    from assms b obtain f where f: "findFile es (appDirectory cfg) ''entry.client'' entryExts = Some f"
      and i: "input = fold (addRouteInput (appDirectory cfg)) (js_entries (routeManifest cfg))
                         [(''entry.client'', f)]"
      by (auto simp add: getInputOption_def split: option.splits if_splits)
    from findFile_Some[OF f] obtain ext where ext: "ext \<in> set entryExts"
      "existsSync es (''entry.client'' @ ext)"
      "f = path_resolve (appDirectory cfg) (''entry.client'' @ ext)" by blast
    have "map fst [(''entry.client'', f)] = entryName tgt"
      using b ne by (simp add: entryName_def)
    moreover have "\<forall>name \<in> set (entryName tgt).
        findFile es (appDirectory cfg) name entryExts = map_of [(''entry.client'', f)] name
        \<and> (\<exists>ext \<in> set entryExts. existsSync es (name @ ext)
              \<and> [(''entry.client'', f)] = [(name, path_resolve (appDirectory cfg) (name @ ext))])"
      using b ne f ext by (auto simp add: entryName_def)
    ultimately show ?thesis using i by blast
  next
    case s
    from assms s ne obtain f where f: "findFile es (appDirectory cfg) ''entry.server'' entryExts = Some f"
      and i: "input = fold (addRouteInput (appDirectory cfg)) (js_entries (routeManifest cfg))
                         [(''entry.server'', f)]"
      by (auto simp add: getInputOption_def split: option.splits if_splits)
    from findFile_Some[OF f] obtain ext where ext: "ext \<in> set entryExts"
      "existsSync es (''entry.server'' @ ext)"
      "f = path_resolve (appDirectory cfg) (''entry.server'' @ ext)" by blast
    have "map fst [(''entry.server'', f)] = entryName tgt"
      using s ne by (simp add: entryName_def)
    moreover have "\<forall>name \<in> set (entryName tgt).
        findFile es (appDirectory cfg) name entryExts = map_of [(''entry.server'', f)] name
        \<and> (\<exists>ext \<in> set entryExts. existsSync es (name @ ext)
              \<and> [(''entry.server'', f)] = [(name, path_resolve (appDirectory cfg) (name @ ext))])"
      using s ne f ext by (auto simp add: entryName_def)
    ultimately show ?thesis using i by blast
  next
    case o
    with assms show ?thesis by (auto simp add: getInputOption_def entryName_def)
  qed
qed

lemma exampleManifest:
  "createRouteManifest exampleRoutes [] =
     [(''__root'', exampleRoute ''__root'' None),
      (''routes/gists'', exampleRoute ''routes/gists'' (Some ''__root'')),
      (''routes/gists/$username'', exampleRoute ''routes/gists/$username'' (Some ''routes/gists'')),
      (''routes/about'', exampleRoute ''routes/about'' (Some ''__root''))]"
  by (simp add: exampleRoutes_def exampleRoute_def js_assign_def)

lemma exampleManifest_entries:
  "js_entries (createRouteManifest exampleRoutes []) = createRouteManifest exampleRoutes []"
  unfolding exampleManifest
  by (simp add: js_entries_def isArrayIndex_def isDigit_def)

lemma exampleInput:
  "getInputOption exampleAppDir exampleConfig BuildTarget_Browser =
     Inr [(''entry.client'', ''/site/app/entry.client.tsx''),
          (''__root'', ''/site/app/__root.tsx''),
          (''routes/gists'', ''/site/app/routes/gists.tsx''),
          (''routes/gists/$username'', ''/site/app/routes/gists/$username.tsx''),
          (''routes/about'', ''/site/app/routes/about.tsx'')]"
proof -
  have paths: "path_resolve ''/site/app'' ''entry.client.tsx'' = ''/site/app/entry.client.tsx''"
    "path_resolve ''/site/app'' ''__root.tsx'' = ''/site/app/__root.tsx''"
    "path_resolve ''/site/app'' ''routes/gists.tsx'' = ''/site/app/routes/gists.tsx''"
    "path_resolve ''/site/app'' ''routes/gists/$username.tsx''
       = ''/site/app/routes/gists/$username.tsx''"
    "path_resolve ''/site/app'' ''routes/about.tsx'' = ''/site/app/routes/about.tsx''"
    by (simp_all add: path_resolve_def normalizeStep_def)
  have entry: "findFile exampleAppDir ''/site/app'' ''entry.client'' entryExts
                 = Some ''/site/app/entry.client.tsx''"
    by (simp add: exampleAppDir_def entryExts_def existsSync_def paths)
  show ?thesis
    unfolding getInputOption_def
    by (simp add: exampleConfig_def exampleManifest_entries entry)
      (simp add: exampleManifest exampleRoute_def addRouteInput_def js_assign_def paths)
qed

lemma collisionInput:
  "getInputOption exampleAppDir collisionConfig BuildTarget_Browser =
     Inr [(''entry.client'', ''/site/app/routes/x.tsx'')]"
proof -
  have paths: "path_resolve ''/site/app'' ''entry.client.tsx'' = ''/site/app/entry.client.tsx''"
    "path_resolve ''/site/app'' ''routes/x.tsx'' = ''/site/app/routes/x.tsx''"
    by (simp_all add: path_resolve_def normalizeStep_def)
  have entry: "findFile exampleAppDir ''/site/app'' ''entry.client'' entryExts
                 = Some ''/site/app/entry.client.tsx''"
    by (simp add: exampleAppDir_def entryExts_def existsSync_def paths)
  have manifest: "createRouteManifest collisionRoutes [] =
      [(''entry.client'', \<lparr> route_id = ''entry.client'', route_path = ''/'',
          moduleFile = Some ''routes/x.tsx'', stylesFile = None, parentId = None \<rparr>)]"
    by (simp add: collisionRoutes_def js_assign_def)
  have entries: "js_entries (createRouteManifest collisionRoutes [])
                   = createRouteManifest collisionRoutes []"
    unfolding manifest by (simp add: js_entries_def isArrayIndex_def isDigit_def)
  show ?thesis
    unfolding getInputOption_def
    by (simp add: collisionConfig_def exampleConfig_def entries entry)
      (simp add: manifest addRouteInput_def js_assign_def paths)
qed

subsection \<open>Conventional routes\<close>

lemma foldE_append:
  "foldE f (xs @ ys) st = (case foldE f xs st of Inl e \<Rightarrow> Inl e | Inr st' \<Rightarrow> foldE f ys st')"
  by (induction xs arbitrary: st) (auto split: sum.splits)

lemma visitFiles_foldE: "visitFiles visitor rel es st = foldE visitor (listFiles rel es) st"
proof (induction visitor rel es st rule: visitFiles.induct)
  case (1 visitor rel st)
  then show ?case by simp
next
  case (2 visitor rel filename node rest st)
  show ?case
  proof (cases node)
    case File
    then show ?thesis using 2(2) by (auto split: sum.splits)
  next
    case (Dir entries)
    then show ?thesis using 2(1)[OF Dir] 2(2) by (auto simp add: foldE_append split: sum.splits)
  next
    case Other
    then show ?thesis using 2(2) by (auto split: sum.splits)
  qed
qed

lemma visitRouteFile_Inl_iff:
  "(\<exists>e. visitRouteFile c appDir f st = Inl e) \<longleftrightarrow> \<not> isModuleFile c f \<and> \<not> isStylesFile c f"
  by (auto simp add: visitRouteFile_def Let_def)

lemma visitRouteFile_Inr:
  assumes "visitRouteFile c appDir f st = Inr st'"
  shows "\<exists>files'. st' = AList.update (routeIdOfFile c f) files' st
           \<and> (module files' \<noteq> None \<longleftrightarrow> isModuleFile c f \<or> hasModule st (routeIdOfFile c f))
           \<and> (module files' = Some [] \<longrightarrow>
                 (\<exists>files. map_of st (routeIdOfFile c f) = Some files \<and> module files = Some []))"
  using assms
  by (auto simp add: visitRouteFile_def Let_def routeIdOfFile_def hasModule_def path_join_def
      split: if_splits option.splits)

lemma foldE_visit_Inl_iff:
  "(\<exists>e. foldE (visitRouteFile c appDir) files st = Inl e) \<longleftrightarrow> unrecognizedFile c files"
proof (induction files arbitrary: st)
  case Nil
  then show ?case by (simp add: unrecognizedFile_def)
next
  case (Cons f files)
  show ?case
  proof (cases "visitRouteFile c appDir f st")
    case (Inl e)
    then have "\<not> isModuleFile c f \<and> \<not> isStylesFile c f"
      using visitRouteFile_Inl_iff[of c appDir f st] by blast
    with Inl show ?thesis by (simp add: unrecognizedFile_def)
  next
    case (Inr st')
    then have "\<not> (\<not> isModuleFile c f \<and> \<not> isStylesFile c f)"
      using visitRouteFile_Inl_iff[of c appDir f st] by auto
    with Inr Cons.IH[of st'] show ?thesis by (auto simp add: unrecognizedFile_def)
  qed
qed

lemma foldE_visit_Inr:
  "foldE (visitRouteFile c appDir) files st = Inr rf \<Longrightarrow>
     fst ` set rf = fst ` set st \<union> routeIdOfFile c ` set files
     \<and> (distinct (map fst st) \<longrightarrow> distinct (map fst rf))
     \<and> (\<forall>i. hasModule rf i \<longleftrightarrow>
              hasModule st i \<or> (\<exists>g \<in> set files. isModuleFile c g \<and> routeIdOfFile c g = i))
     \<and> (noEmptyModule st \<longrightarrow> noEmptyModule rf)"
proof (induction files arbitrary: st)
  case Nil
  then show ?case by simp
next
  case (Cons f files)
  from Cons.prems obtain st' where
    step: "visitRouteFile c appDir f st = Inr st'"
    and rest: "foldE (visitRouteFile c appDir) files st' = Inr rf"
    by (auto split: sum.splits)
  from visitRouteFile_Inr[OF step] obtain files' where
    st': "st' = AList.update (routeIdOfFile c f) files' st"
    and m: "module files' \<noteq> None \<longleftrightarrow> isModuleFile c f \<or> hasModule st (routeIdOfFile c f)"
    and e: "module files' = Some [] \<longrightarrow>
                 (\<exists>files. map_of st (routeIdOfFile c f) = Some files \<and> module files = Some [])"
    by blast
  have keys: "fst ` set st' = insert (routeIdOfFile c f) (fst ` set st)"
    unfolding st' by (simp add: dom_update)
  have dist: "distinct (map fst st) \<longrightarrow> distinct (map fst st')"
    unfolding st' by (simp add: distinct_update)
  have hm: "hasModule st' i \<longleftrightarrow> hasModule st i \<or> (isModuleFile c f \<and> routeIdOfFile c f = i)" for i
    unfolding st' using m by (auto simp add: hasModule_def update_conv' split: option.splits)
  have nem: "noEmptyModule st \<longrightarrow> noEmptyModule st'"
    unfolding st' using e by (auto simp add: noEmptyModule_def update_conv' split: if_splits)
  from Cons.IH[OF rest] keys dist hm nem show ?case by auto
qed

lemma forEach_Inr_iff:
  "(\<exists>ys. forEach body xs = Inr ys) \<longleftrightarrow> (\<forall>x \<in> set xs. \<exists>y. body x = Inr y)"
  by (induction xs) (auto split: sum.splits)

lemma defineNestedRoutes_Inr_iff:
  "(\<exists>rs. defineNestedRoutes c rf p = Inr rs) \<longleftrightarrow>
     (\<forall>entry \<in> set rf. findParentRouteId (map fst rf) (fst entry) = p \<longrightarrow>
        truthyModule (snd entry) \<and> (\<exists>rs'. defineNestedRoutes c rf (Some (fst entry)) = Inr rs'))"
proof -
  have body: "(\<exists>y. (case module (snd entry) of
                   None \<Rightarrow> Inl (stylesWithoutModule (fst entry))
                 | Some m \<Rightarrow>
                     if m \<noteq> [] then
                       (case defineNestedRoutes c rf (Some (fst entry)) of
                          Inl e \<Rightarrow> Inl e
                        | Inr nested \<Rightarrow> Inr (defineRoute c path m (styles (snd entry)) nested))
                     else Inl (stylesWithoutModule (fst entry))) = Inr y)
        \<longleftrightarrow> truthyModule (snd entry) \<and> (\<exists>rs'. defineNestedRoutes c rf (Some (fst entry)) = Inr rs')"
    for entry path
    by (auto simp add: truthyModule_def split: option.splits sum.splits)
  show ?thesis
    by (subst defineNestedRoutes.simps) (auto simp add: Let_def forEach_Inr_iff body)
qed

lemma defineNestedRoutes_good:
  assumes good: "\<forall>entry \<in> set rf. truthyModule (snd entry)"
  shows "\<exists>rs. defineNestedRoutes c rf p = Inr rs"
  using good
proof (induction c rf p rule: defineNestedRoutes.induct)
  case (1 c routeFiles parentRouteId)
  have "truthyModule (snd entry) \<and> (\<exists>rs'. defineNestedRoutes c routeFiles (Some (fst entry)) = Inr rs')"
    if mem: "entry \<in> set routeFiles"
      and par: "findParentRouteId (map fst routeFiles) (fst entry) = parentRouteId" for entry
  proof -
    from 1(2) mem have t: "truthyModule (snd entry)" by blast
    then obtain m where m: "module (snd entry) = Some m" "m \<noteq> []"
      by (auto simp add: truthyModule_def split: option.splits)
    have "entry \<in> set (filter (\<lambda>entry. findParentRouteId (map fst routeFiles) (fst entry) = parentRouteId)
                          routeFiles)"
      using mem par by simp
    from 1(1)[OF refl refl this refl refl m 1(2)] t show ?thesis by blast
  qed
  then show ?case
    using defineNestedRoutes_Inr_iff[of c routeFiles parentRouteId] by blast
qed

lemma defineNestedRoutes_reaches:
  assumes top: "defineNestedRoutes c rf None = Inr rs"
  shows "entry \<in> set rf \<Longrightarrow>
           truthyModule (snd entry) \<and> (\<exists>rs'. defineNestedRoutes c rf (Some (fst entry)) = Inr rs')"
proof (induction "length (fst entry)" arbitrary: entry rule: less_induct)
  case less
  show ?case
  proof (cases "findParentRouteId (map fst rf) (fst entry)")
    case None
    with top less.prems defineNestedRoutes_Inr_iff[of c rf None] show ?thesis by blast
  next
    case (Some q)
    then have q: "q \<in> set (map fst rf)" "prefix (q @ ''/'') (fst entry)"
      by (simp_all add: findParentRouteId_Some_iff)
    from q(2) have "length (q @ ''/'') \<le> length (fst entry)" by (rule prefix_length_le)
    then have shorter: "length q < length (fst entry)" by simp
    from q(1) obtain parent where parent: "parent \<in> set rf" "fst parent = q" by auto
    from less.hyps[of parent] shorter parent
    have "\<exists>rs'. defineNestedRoutes c rf (Some q) = Inr rs'" by auto
    with Some less.prems defineNestedRoutes_Inr_iff[of c rf "Some q"] show ?thesis by blast
  qed
qed

lemma defineNestedRoutes_Inl_iff:
  "(\<exists>e. defineNestedRoutes c rf None = Inl e) \<longleftrightarrow> (\<exists>entry \<in> set rf. \<not> truthyModule (snd entry))"
proof
  assume "\<exists>e. defineNestedRoutes c rf None = Inl e"
  then have "\<not> (\<exists>rs. defineNestedRoutes c rf None = Inr rs)" by auto
  with defineNestedRoutes_good[of rf c None] show "\<exists>entry \<in> set rf. \<not> truthyModule (snd entry)"
    by blast
next
  assume bad: "\<exists>entry \<in> set rf. \<not> truthyModule (snd entry)"
  show "\<exists>e. defineNestedRoutes c rf None = Inl e"
  proof (cases "defineNestedRoutes c rf None")
    case (Inl e)
    then show ?thesis by blast
  next
    case (Inr rs)
    from defineNestedRoutes_reaches[OF Inr] bad show ?thesis by blast
  qed
qed

lemma findRootRouteModule_Inl_iff:
  "(\<exists>e. findRootRouteModule es name = Inl e) \<longleftrightarrow> rootModuleMissing es name"
  by (auto simp add: findRootRouteModule_def rootModuleMissing_def Let_def find_None_iff
      split: option.splits)

lemma defineLayoutRoutes_Inl_iff:
  "(\<exists>e. defineLayoutRoutes c rf es name = Inl e) \<longleftrightarrow>
     (\<exists>entry \<in> set rf. \<not> truthyModule (snd entry)) \<or> rootModuleMissing es name"
proof (cases "defineNestedRoutes c rf None")
  case (Inl e)
  then have "\<exists>entry \<in> set rf. \<not> truthyModule (snd entry)"
    using defineNestedRoutes_Inl_iff[of c rf] by blast
  with Inl show ?thesis by (simp add: defineLayoutRoutes_def defineRoutes_def)
next
  case (Inr rs)
  then have "\<not> (\<exists>entry \<in> set rf. \<not> truthyModule (snd entry))"
    using defineNestedRoutes_Inl_iff[of c rf] by auto
  with Inr findRootRouteModule_Inl_iff[of es name] show ?thesis
    by (auto simp add: defineLayoutRoutes_def defineRoutes_def Let_def split: sum.splits)
qed

lemma routeFiles_styles_only:
  assumes ok: "foldE (visitRouteFile c appDir) files [] = Inr rf"
  shows "(\<exists>entry \<in> set rf. \<not> truthyModule (snd entry)) \<longleftrightarrow> stylesButNoModule c files"
proof -
  from foldE_visit_Inr[OF ok] have
    keys: "fst ` set rf = routeIdOfFile c ` set files"
    and dist: "distinct (map fst rf)"
    and hm: "\<And>i. hasModule rf i \<longleftrightarrow> (\<exists>g \<in> set files. isModuleFile c g \<and> routeIdOfFile c g = i)"
    and nem: "noEmptyModule rf"
    by (auto simp add: hasModule_def noEmptyModule_def)
  have valid: "isModuleFile c f \<or> isStylesFile c f" if "f \<in> set files" for f
    using foldE_visit_Inl_iff[of c appDir files "[]"] ok that
    by (auto simp add: unrecognizedFile_def list_ex_iff)
  have look: "map_of rf (fst entry) = Some (snd entry)" if "entry \<in> set rf" for entry
    using dist that by (cases entry) simp
  have truthy: "truthyModule (snd entry) \<longleftrightarrow> hasModule rf (fst entry)" if "entry \<in> set rf" for entry
    using look[OF that] nem
    by (auto simp add: truthyModule_def hasModule_def noEmptyModule_def split: option.splits)
  show ?thesis
  proof
    assume "\<exists>entry \<in> set rf. \<not> truthyModule (snd entry)"
    then obtain entry where entry: "entry \<in> set rf" "\<not> hasModule rf (fst entry)"
      using truthy by blast
    from entry(1) keys obtain f where f: "f \<in> set files" "routeIdOfFile c f = fst entry"
      by (metis image_iff)
    from entry(2) hm have none: "\<not> (\<exists>g \<in> set files. isModuleFile c g \<and> routeIdOfFile c g = fst entry)"
      by blast
    with f have "\<not> isModuleFile c f" by blast
    with valid[OF f(1)] have "isStylesFile c f" by blast
    with \<open>\<not> isModuleFile c f\<close> none f show "stylesButNoModule c files"
      unfolding stylesButNoModule_def list_ex_iff by (intro bexI[of _ f]) auto
  next
    assume "stylesButNoModule c files"
    then obtain f where f: "f \<in> set files" "\<not> isModuleFile c f" "isStylesFile c f"
      "\<not> (\<exists>g \<in> set files. isModuleFile c g \<and> routeIdOfFile c g = routeIdOfFile c f)"
      unfolding stylesButNoModule_def list_ex_iff by blast
    from f(1) keys have "routeIdOfFile c f \<in> fst ` set rf" by blast
    then obtain entry where entry: "entry \<in> set rf" "fst entry = routeIdOfFile c f" by auto
    from f(4) hm have "\<not> hasModule rf (routeIdOfFile c f)" by blast
    with entry(2) have "\<not> hasModule rf (fst entry)" by simp
    with truthy[OF entry(1)] have "\<not> truthyModule (snd entry)" by simp
    with entry(1) show "\<exists>entry \<in> set rf. \<not> truthyModule (snd entry)"
      by (rule_tac x = entry in bexI)
  qed
qed

lemma readdirSync_Inr_iff:
  "(\<exists>es. readdirSync parent name = Inr es) \<longleftrightarrow> (\<exists>es. map_of parent name = Some (Dir es))"
proof (cases "map_of parent name")
  case None
  then show ?thesis by (simp add: readdirSync_def)
next
  case (Some node)
  then show ?thesis by (cases node) (simp_all add: readdirSync_def)
qed

section \<open>Claims\<close>

text \<open>
  Claim C9. With the options argument omitted, or given without a mode or without a
  target, \<^verbatim>\<open>build\<close> takes mode production and target server, while \<^verbatim>\<open>watch\<close> takes
  mode development and target browser; a field that is given is kept by both. The two
  default pairs differ in both components.
\<close>

theorem build_watch_defaults:
  "options (build ign config None) = \<lparr> mode = BuildMode_Production, target = BuildTarget_Server \<rparr>
   \<and> options (watch ign config None) = \<lparr> mode = BuildMode_Development, target = BuildTarget_Browser \<rparr>
   \<and> options (build ign config (Some \<lparr> mode_opt = m, target_opt = t \<rparr>)) =
       \<lparr> mode = (case m of None \<Rightarrow> BuildMode_Production | Some x \<Rightarrow> x),
         target = (case t of None \<Rightarrow> BuildTarget_Server | Some x \<Rightarrow> x) \<rparr>
   \<and> options (watch ign config (Some \<lparr> mode_opt = m, target_opt = t \<rparr>)) =
       \<lparr> mode = (case m of None \<Rightarrow> BuildMode_Development | Some x \<Rightarrow> x),
         target = (case t of None \<Rightarrow> BuildTarget_Browser | Some x \<Rightarrow> x) \<rparr>
   \<and> BuildMode_Production \<noteq> BuildMode_Development
   \<and> BuildTarget_Server \<noteq> BuildTarget_Browser"
  by (simp add: build_def watch_def Let_def BuildMode_Production_def BuildMode_Development_def
      BuildTarget_Server_def BuildTarget_Browser_def)

text \<open>
  Claim C7, as amended. Entry and asset file names carry the content-hash placeholder
  exactly when the mode is production and the target is the browser; so for the server
  they are hash-free in every mode, and for the browser they are hashed in production and
  stable in development. The names of shared chunks carry the hash always, for either
  target and in every mode.
\<close>

theorem output_file_naming:
  "carriesHash (entryFileNames (getOutputOptions b)) =
     (mode (options b) = BuildMode_Production \<and> target (options b) = BuildTarget_Browser)
   \<and> carriesHash (assetFileNames (getOutputOptions b)) =
     (mode (options b) = BuildMode_Production \<and> target (options b) = BuildTarget_Browser)
   \<and> carriesHash (chunkFileNames (getOutputOptions b))
   \<and> \<not> carriesHash (entryFileNames (getOutputOptions
         \<lparr> options = \<lparr> mode = m, target = BuildTarget_Server \<rparr>, external = e \<rparr>))
   \<and> \<not> carriesHash (assetFileNames (getOutputOptions
         \<lparr> options = \<lparr> mode = m, target = BuildTarget_Server \<rparr>, external = e \<rparr>))
   \<and> carriesHash (entryFileNames (getOutputOptions
         \<lparr> options = \<lparr> mode = BuildMode_Production, target = BuildTarget_Browser \<rparr>,
           external = e \<rparr>))
   \<and> \<not> carriesHash (entryFileNames (getOutputOptions
         \<lparr> options = \<lparr> mode = BuildMode_Development, target = BuildTarget_Browser \<rparr>,
           external = e \<rparr>))"
  by (simp add: getOutputOptions_def carriesHash_def Let_def BuildMode_Production_def
      BuildMode_Development_def BuildTarget_Server_def BuildTarget_Browser_def)

text \<open>
  Claim C7 as first stated says that for the server every output file name is free of a
  content hash. For a development build for the server the entry and asset names are,
  but the chunk names are not.
\<close>

theorem server_file_names_counterexample:
  "\<not> (\<not> carriesHash (entryFileNames (getOutputOptions
          \<lparr> options = \<lparr> mode = BuildMode_Development, target = BuildTarget_Server \<rparr>,
            external = ExternalList [] \<rparr>))
      \<and> \<not> carriesHash (assetFileNames (getOutputOptions
          \<lparr> options = \<lparr> mode = BuildMode_Development, target = BuildTarget_Server \<rparr>,
            external = ExternalList [] \<rparr>))
      \<and> \<not> carriesHash (chunkFileNames (getOutputOptions
          \<lparr> options = \<lparr> mode = BuildMode_Development, target = BuildTarget_Server \<rparr>,
            external = ExternalList [] \<rparr>)))"
  by (simp add: getOutputOptions_def carriesHash_def Let_def)

text \<open>
  Claim C5. For the server a module id is external exactly when it does not start with
  a dot, is not an absolute path and does not start with one of the import hints
  \<^verbatim>\<open>css:\<close>, \<^verbatim>\<open>img:\<close>, \<^verbatim>\<open>url:\<close>; so \<^verbatim>\<open>react\<close> is external and \<^verbatim>\<open>./foo\<close> is not.
  For the browser a module id is external exactly when it is on the deny-list.
\<close>

theorem external_classifier:
  "isExternal (getExternalOption ign BuildTarget_Server) i =
     (\<not> prefix ''.'' i \<and> \<not> path_isAbsolute i \<and> \<not> isImportHint i)
   \<and> isImportHint i = (prefix ''css:'' i \<or> prefix ''img:'' i \<or> prefix ''url:'' i)
   \<and> isExternal (getExternalOption ign BuildTarget_Browser) i = (i \<in> set ign)
   \<and> isExternal (getExternalOption ign BuildTarget_Server) ''react''
   \<and> \<not> isExternal (getExternalOption ign BuildTarget_Server) ''./foo''"
  by (simp add: isExternal_def getExternalOption_def isLocalModuleId_def isImportHint_def
      importHints_def path_isAbsolute_def BuildTarget_Server_def BuildTarget_Browser_def)

text \<open>
  Claim C8. A configured \<^verbatim>\<open>publicPath\<close> that does not end in a slash has one appended,
  one that ends in a slash is kept as it is, and a missing or empty one is \<^verbatim>\<open>/build/\<close>.
  So the resolved value ends in a slash whatever was configured, and resolving a resolved
  value again gives the same value; \<^verbatim>\<open>/build\<close> and \<^verbatim>\<open>/build/\<close> both resolve to
  \<^verbatim>\<open>/build/\<close>. Whenever \<^verbatim>\<open>readConfig\<close> returns a configuration, its \<^verbatim>\<open>publicPath\<close> is
  the value resolved from the loaded config file, and ends in a slash.
\<close>

theorem publicPath_normalization:
  "suffix ''/'' (resolvePublicPath p)
   \<and> resolvePublicPath (Some (resolvePublicPath p)) = resolvePublicPath p
   \<and> resolvePublicPath (Some ''/build'') = ''/build/''
   \<and> resolvePublicPath (Some ''/build/'') = ''/build/''
   \<and> (s \<noteq> [] \<and> \<not> suffix ''/'' s \<longrightarrow> resolvePublicPath (Some s) = s @ ''/'')
   \<and> (suffix ''/'' s \<longrightarrow> resolvePublicPath (Some s) = s)
   \<and> resolvePublicPath (Some []) = ''/build/''
   \<and> resolvePublicPath None = ''/build/''
   \<and> (readConfig h r = Inr cfg \<longrightarrow>
        suffix ''/'' (publicPath cfg)
        \<and> (\<exists>ac. require h (resolveConfigFile h r) = Loaded ac
              \<and> publicPath cfg = resolvePublicPath (user_publicPath ac)))"
proof -
  have examples: "resolvePublicPath (Some ''/build'') = ''/build/''"
    "resolvePublicPath (Some ''/build/'') = ''/build/''"
    "resolvePublicPath (Some []) = ''/build/''"
    "resolvePublicPath None = ''/build/''"
    by (simp_all add: resolvePublicPath_def Let_def or_default_def suffix_def)
  have appended: "resolvePublicPath (Some s) = s @ ''/''" if "s \<noteq> []" "\<not> suffix ''/'' s"
    using that by (simp add: resolvePublicPath_def Let_def or_default_def)
  have kept: "resolvePublicPath (Some s) = s" if "suffix ''/'' s"
  proof -
    from that have "s \<noteq> []" by (auto simp add: suffix_def)
    with that show ?thesis by (simp add: resolvePublicPath_def Let_def or_default_def)
  qed
  have "suffix ''/'' (publicPath cfg)
        \<and> (\<exists>ac. require h (resolveConfigFile h r) = Loaded ac
              \<and> publicPath cfg = resolvePublicPath (user_publicPath ac))"
    if ok: "readConfig h r = Inr cfg"
  proof -
    from readConfig_publicPath[OF ok] obtain ac where
      ac: "require h (resolveConfigFile h r) = Loaded ac"
        "publicPath cfg = resolvePublicPath (user_publicPath ac)"
      by blast
    from ac(2) have "suffix ''/'' (publicPath cfg)"
      by (simp add: resolvePublicPath_suffix)
    with ac show ?thesis by blast
  qed
  with examples appended kept show ?thesis
    by (simp add: resolvePublicPath_suffix resolvePublicPath_idem)
qed

theorem publicPath_normalization_witness:
  "resolvePublicPath (Some ''/assets'') = ''/assets/''
   \<and> resolvePublicPath (Some ''/assets/'') = ''/assets/''
   \<and> (\<exists>cfg. readConfig exampleHost None = Inr cfg \<and> publicPath cfg = ''/build/''
         \<and> suffix ''/'' (publicPath cfg))"
proof -
  obtain cfg where cfg: "readConfig exampleHost None = Inr cfg" "publicPath cfg = ''/build/''"
    by (simp add: readConfig_exampleHost)
  from publicPath_normalization[of None "''/assets''" exampleHost None cfg]
  have a: "resolvePublicPath (Some ''/assets'') = ''/assets/''"
    by (simp add: suffix_def)
  from publicPath_normalization[of None "''/assets/''" exampleHost None cfg]
  have b: "resolvePublicPath (Some ''/assets/'') = ''/assets/''"
    by (simp add: suffix_def)
  from publicPath_normalization[of None "''/assets''" exampleHost None cfg] cfg(1)
  have "suffix ''/'' (publicPath cfg)" by blast
  with cfg a b show ?thesis by blast
qed

text \<open>
  Claim C10. When loading \<^verbatim>\<open>remix.config.js\<close> fails, \<^verbatim>\<open>readConfig\<close> throws the error
  \<^verbatim>\<open>Missing remix.config.js in <rootDirectory>\<close>, whether the file is absent or it is
  there and throws while it loads, and whatever it throws: the caller cannot tell the
  two apart.
\<close>

theorem readConfig_missing_config:
  "require h (resolveConfigFile h r) = ModuleNotFound
     \<or> require h (resolveConfigFile h r) = LoadThrew msg
   \<Longrightarrow> readConfig h r =
         Inl (Error (''Missing remix.config.js in '' @ resolveRootDirectory h r))"
  by (auto simp add: readConfig_def Let_def)

theorem readConfig_missing_config_witness:
  "readConfig (exampleHost \<lparr> require := (\<lambda>file. LoadThrew ''boom'') \<rparr>) None =
     Inl (Error ''Missing remix.config.js in /site'')
   \<and> readConfig (exampleHost \<lparr> require := (\<lambda>file. ModuleNotFound) \<rparr>) None =
     Inl (Error ''Missing remix.config.js in /site'')"
proof -
  have root: "resolveRootDirectory (exampleHost \<lparr> require := f \<rparr>) None = ''/site''" for f
    by (simp add: resolveRootDirectory_def exampleHost_def or_default_def path_resolve_def
        normalizeStep_def)
  have "readConfig (exampleHost \<lparr> require := (\<lambda>file. LoadThrew ''boom'') \<rparr>) None =
     Inl (Error ''Missing remix.config.js in /site'')"
    using readConfig_missing_config
      [of "exampleHost \<lparr> require := (\<lambda>file. LoadThrew ''boom'') \<rparr>" None "''boom''"]
    by (simp add: root)
  moreover have "readConfig (exampleHost \<lparr> require := (\<lambda>file. ModuleNotFound) \<rparr>) None =
     Inl (Error ''Missing remix.config.js in /site'')"
    using readConfig_missing_config
      [of "exampleHost \<lparr> require := (\<lambda>file. ModuleNotFound) \<rparr>" None "''boom''"]
    by (simp add: root)
  ultimately show ?thesis by blast
qed

text \<open>
  Claim C3, as amended. \<^verbatim>\<open>createRoutePath\<close> replaces every \<^verbatim>\<open>$\<close> with \<^verbatim>\<open>:\<close> and
  every \<^verbatim>\<open>.\<close> with \<^verbatim>\<open>/\<close>. Of the path so obtained it removes a trailing
  \<^verbatim>\<open>index\<close>, together with a slash right before it, when that \<^verbatim>\<open>index\<close> is the
  whole path or follows a character that is not a word character: a path that is
  \<^verbatim>\<open>index\<close> becomes empty, a path \<^verbatim>\<open>q/index\<close> becomes \<^verbatim>\<open>q\<close>, and a path
  \<^verbatim>\<open>qcindex\<close> with \<^verbatim>\<open>c\<close> neither a slash nor a word character becomes \<^verbatim>\<open>qc\<close>. A
  path whose trailing \<^verbatim>\<open>index\<close> follows a letter, a digit or an underscore, and a path
  that does not end in \<^verbatim>\<open>index\<close>, stay as they are. So \<^verbatim>\<open>gists/$username\<close> maps to
  \<^verbatim>\<open>gists/:username\<close>, \<^verbatim>\<open>about.us\<close> to \<^verbatim>\<open>about/us\<close> and \<^verbatim>\<open>gists/index\<close> to
  \<^verbatim>\<open>gists\<close>.
\<close>

theorem createRoutePath_cases:
  "replaceAll CHR ''.'' CHR ''/'' (replaceAll CHR ''$'' CHR '':'' s) = routePathChars s
   \<and> (\<not> suffix ''index'' (routePathChars s) \<longrightarrow> createRoutePath s = routePathChars s)
   \<and> (routePathChars s = ''index'' \<longrightarrow> createRoutePath s = [])
   \<and> (\<forall>q. routePathChars s = q @ ''/index'' \<longrightarrow> createRoutePath s = q)
   \<and> (\<forall>q c. routePathChars s = q @ c # ''index'' \<and> \<not> isWordChar c \<and> c \<noteq> CHR ''/''
         \<longrightarrow> createRoutePath s = q @ [c])
   \<and> (\<forall>q c. routePathChars s = q @ c # ''index'' \<and> isWordChar c
         \<longrightarrow> createRoutePath s = routePathChars s)
   \<and> createRoutePath ''gists/$username'' = ''gists/:username''
   \<and> createRoutePath ''about.us'' = ''about/us''
   \<and> createRoutePath ''gists/index'' = ''gists''"
proof -
  have ex: "createRoutePath ''gists/$username'' = ''gists/:username''"
    "createRoutePath ''about.us'' = ''about/us''"
    "createRoutePath ''gists/index'' = ''gists''"
    by (simp_all add: createRoutePath_def replaceAll_def testIndex_def replaceIndex_def
        slashIndexEndAt_def wordBoundary_def isWordChar_def upt_rec)
  have a: "createRoutePath s = routePathChars s" if "\<not> suffix ''index'' (routePathChars s)"
    using no_testIndex[OF that] by (simp add: createRoutePath_def replaceAll_routePathChars)
  have b: "createRoutePath s = []" if "routePathChars s = ''index''"
    using that
    by (simp add: createRoutePath_def replaceAll_routePathChars testIndex_def replaceIndex_def
        slashIndexEndAt_def wordBoundary_def isWordChar_def upt_rec)
  have c: "createRoutePath s = q" if "routePathChars s = q @ ''/index''" for q
    using path_slash_index[OF that]
    by (simp add: createRoutePath_def replaceAll_routePathChars)
  have d: "createRoutePath s = q @ [c]"
    if "routePathChars s = q @ c # ''index''" "\<not> isWordChar c" "c \<noteq> CHR ''/''" for q c
    using path_other_index[OF that]
    by (simp add: createRoutePath_def replaceAll_routePathChars)
  have e: "createRoutePath s = routePathChars s"
    if "routePathChars s = q @ c # ''index''" "isWordChar c" for q c
    using path_word_index[OF that]
    by (simp add: createRoutePath_def replaceAll_routePathChars)
  show ?thesis
    using ex a b c d e by (simp add: replaceAll_routePathChars)
qed

text \<open>
  Claim C3 as first stated has the trailing \<^verbatim>\<open>index\<close> removed from any id ending in
  \<^verbatim>\<open>index\<close>. The id \<^verbatim>\<open>reindex\<close> ends in \<^verbatim>\<open>index\<close> and is returned unchanged.
\<close>

theorem createRoutePath_reindex_counterexample:
  "suffix ''index'' ''reindex'' \<and> createRoutePath ''reindex'' = ''reindex''"
  by (simp add: suffix_def createRoutePath_def replaceAll_def testIndex_def replaceIndex_def
        slashIndexEndAt_def wordBoundary_def isWordChar_def upt_rec)

theorem createRoutePath_cases_witness:
  "createRoutePath ''docs.index'' = ''docs'' \<and> createRoutePath ''index'' = []
   \<and> createRoutePath ''a-index'' = ''a-'' \<and> createRoutePath ''reindex'' = ''reindex''
   \<and> createRoutePath ''$id'' = '':id''"
proof -
  have 1: "createRoutePath ''docs.index'' = ''docs''"
    using createRoutePath_cases[of "''docs.index''"] by (simp add: routePathChars_def)
  have 2: "createRoutePath ''index'' = []"
    using createRoutePath_cases[of "''index''"] by (simp add: routePathChars_def)
  have 3: "createRoutePath ''a-index'' = ''a-''"
    using createRoutePath_cases[of "''a-index''"]
    by (simp add: routePathChars_def isWordChar_def)
  have 4: "createRoutePath ''reindex'' = ''reindex''"
    using createRoutePath_cases[of "''reindex''"]
    by (simp add: routePathChars_def isWordChar_def)
  have 5: "createRoutePath ''$id'' = '':id''"
    using createRoutePath_cases[of "''$id''"]
    by (simp add: routePathChars_def suffix_def)
  from 1 2 3 4 5 show ?thesis by simp
qed

text \<open>
  Claim C2. Among the given route ids, the inferred parent of \<open>b\<close> is the id \<open>a\<close> such
  that \<open>b\<close> starts with \<open>a\<close> followed by a slash and no id with that property is
  longer; there is no parent exactly when no id has the property. For the ids
  \<^verbatim>\<open>routes\<close>, \<^verbatim>\<open>routes/gists\<close>, \<^verbatim>\<open>routes/gists/$username\<close>, \<^verbatim>\<open>routes/about\<close> the parent
  of \<^verbatim>\<open>routes/gists/$username\<close> is \<^verbatim>\<open>routes/gists\<close>.
\<close>

theorem findParentRouteId_longest_prefix:
  "(findParentRouteId ids b = Some a \<longleftrightarrow>
      a \<in> set ids \<and> prefix (a @ ''/'') b
      \<and> (\<forall>a' \<in> set ids. prefix (a' @ ''/'') b \<longrightarrow> length a' \<le> length a))
   \<and> (findParentRouteId ids b = None \<longleftrightarrow> (\<forall>a \<in> set ids. \<not> prefix (a @ ''/'') b))
   \<and> findParentRouteId
        [''routes'', ''routes/gists'', ''routes/gists/$username'', ''routes/about'']
        ''routes/gists/$username'' = Some ''routes/gists''"
proof -
  have "findParentRouteId
        [''routes'', ''routes/gists'', ''routes/gists/$username'', ''routes/about'']
        ''routes/gists/$username'' = Some ''routes/gists''"
    by (simp add: findParentRouteId_def array_sort_def byLongestFirst_def)
  then show ?thesis
    using findParentRouteId_Some_iff[of ids b a] findParentRouteId_None_iff[of ids b]
    by blast
qed

theorem findParentRouteId_longest_prefix_witness:
  "findParentRouteId [''routes/about'', ''routes'', ''routes/gists/$username'', ''routes/gists'']
     ''routes/gists/$username'' = Some ''routes/gists''
   \<and> findParentRouteId [''routes/about'', ''routes'', ''routes/gists/$username'', ''routes/gists'']
     ''routes/gists'' = Some ''routes''
   \<and> findParentRouteId [''routes/about'', ''routes'', ''routes/gists/$username'', ''routes/gists'']
     ''routes'' = None"
proof -
  let ?ids = "[''routes/about'', ''routes'', ''routes/gists/$username'', ''routes/gists'']"
  have 1: "findParentRouteId ?ids ''routes/gists/$username'' = Some ''routes/gists''"
    using findParentRouteId_longest_prefix[of ?ids "''routes/gists/$username''" "''routes/gists''"]
    by simp
  have 2: "findParentRouteId ?ids ''routes/gists'' = Some ''routes''"
    using findParentRouteId_longest_prefix[of ?ids "''routes/gists''" "''routes''"]
    by simp
  have 3: "findParentRouteId ?ids ''routes'' = None"
    using findParentRouteId_longest_prefix[of ?ids "''routes''" "''routes''"]
    by simp
  from 1 2 3 show ?thesis by simp
qed

text \<open>
  Claim C1, as amended. Take a route tree whose ids are pairwise distinct, none of them
  the reserved key \<^verbatim>\<open>__proto__\<close>, and whose \<^verbatim>\<open>parentId\<close> fields agree with the nesting
  (every child carries the id of the node it is listed under, a top-level route carries
  none). Then the keys of the manifest that \<^verbatim>\<open>createRouteManifest\<close> builds are the ids of
  the tree, every node is stored, without its children, under its id, and the edges
  rebuilt from the stored \<^verbatim>\<open>parentId\<close> references are exactly the edges of the tree.
\<close>

theorem manifest_round_trip:
  "distinct (treeIds rs) \<and> ''__proto__'' \<notin> set (treeIds rs) \<and> parentsConsistent None rs \<longrightarrow>
     set (map fst (createRouteManifest rs [])) = set (treeIds rs)
     \<and> (\<forall>r \<in> set (routeInfos rs). map_of (createRouteManifest rs []) (route_id r) = Some r)
     \<and> set (manifestEdges (createRouteManifest rs [])) = set (treeEdges rs)"
proof
  assume a: "distinct (treeIds rs) \<and> ''__proto__'' \<notin> set (treeIds rs)
             \<and> parentsConsistent None rs"
  then have m: "createRouteManifest rs [] = manifestOf (routeInfos rs)"
    using createRouteManifest_append[of "[]" rs] by (simp add: treeIds_def)
  have keys: "set (map fst (manifestOf (routeInfos rs))) = set (treeIds rs)"
    by (simp add: manifestOf_def treeIds_def comp_def)
  have stored: "\<forall>r \<in> set (routeInfos rs). map_of (manifestOf (routeInfos rs)) (route_id r) = Some r"
    using a map_of_manifestOf[of "routeInfos rs"] by (simp add: treeIds_def)
  have edges: "set (manifestEdges (manifestOf (routeInfos rs))) = set (treeEdges rs)"
    using manifestEdges_consistent[of None rs] a by simp
  show "set (map fst (createRouteManifest rs [])) = set (treeIds rs)
     \<and> (\<forall>r \<in> set (routeInfos rs). map_of (createRouteManifest rs []) (route_id r) = Some r)
     \<and> set (manifestEdges (createRouteManifest rs [])) = set (treeEdges rs)"
    unfolding m using keys stored edges by blast
qed

text \<open>
  Claim C1 as first stated asks for distinct ids only. In \<open>orphanRoutes\<close> the ids are
  distinct, the tree has the edge from \<^verbatim>\<open>a\<close> to \<^verbatim>\<open>b\<close>, and no edge can be rebuilt
  from the manifest, since \<^verbatim>\<open>createRouteManifest\<close> copies the \<^verbatim>\<open>parentId\<close> it finds and
  \<^verbatim>\<open>b\<close> has none. In \<open>protoRoutes\<close> the ids are distinct and the child names its
  parent, but the child's id is \<^verbatim>\<open>__proto__\<close>: the assignment stores no key for it, and
  the edge to it cannot be rebuilt either.
\<close>

theorem manifest_round_trip_counterexample:
  "distinct (treeIds orphanRoutes)
   \<and> set (manifestEdges (createRouteManifest orphanRoutes [])) \<noteq> set (treeEdges orphanRoutes)
   \<and> distinct (treeIds protoRoutes) \<and> parentsConsistent None protoRoutes
   \<and> set (manifestEdges (createRouteManifest protoRoutes [])) \<noteq> set (treeEdges protoRoutes)"
  by (simp add: orphanRoutes_def protoRoutes_def exampleRoute_def treeIds_def manifestEdges_def
      js_assign_def)

theorem manifest_round_trip_witness:
  "distinct (treeIds exampleRoutes) \<and> ''__proto__'' \<notin> set (treeIds exampleRoutes)
   \<and> parentsConsistent None exampleRoutes
   \<and> set (manifestEdges (createRouteManifest exampleRoutes [])) =
       {(''__root'', ''routes/gists''), (''routes/gists'', ''routes/gists/$username''),
        (''__root'', ''routes/about'')}
   \<and> map_of (createRouteManifest exampleRoutes []) ''routes/about''
       = Some (exampleRoute ''routes/about'' (Some ''__root''))"
proof -
  have h: "distinct (treeIds exampleRoutes) \<and> ''__proto__'' \<notin> set (treeIds exampleRoutes)
           \<and> parentsConsistent None exampleRoutes"
    by (simp add: exampleRoutes_def exampleRoute_def treeIds_def)
  have e: "set (treeEdges exampleRoutes) =
       {(''__root'', ''routes/gists''), (''routes/gists'', ''routes/gists/$username''),
        (''__root'', ''routes/about'')}"
    by (auto simp add: exampleRoutes_def exampleRoute_def)
  have mem: "exampleRoute ''routes/about'' (Some ''__root'') \<in> set (routeInfos exampleRoutes)"
    by (simp add: exampleRoutes_def)
  have rid: "route_id (exampleRoute ''routes/about'' (Some ''__root'')) = ''routes/about''"
    by (simp add: exampleRoute_def)
  from h manifest_round_trip[of exampleRoutes]
  have t: "(\<forall>r \<in> set (routeInfos exampleRoutes).
              map_of (createRouteManifest exampleRoutes []) (route_id r) = Some r)"
    and edges: "set (manifestEdges (createRouteManifest exampleRoutes []))
                  = set (treeEdges exampleRoutes)"
    by blast+
  from t mem rid have "map_of (createRouteManifest exampleRoutes []) ''routes/about''
       = Some (exampleRoute ''routes/about'' (Some ''__root''))"
    by (metis (no_types))
  with h e edges show ?thesis by (simp only: simp_thms)
qed

text \<open>
  Claim C6, as amended. \<^verbatim>\<open>getInputOption\<close> throws exactly when the target is the
  browser and the app directory has no \<^verbatim>\<open>entry.client\<close> file with one of the extensions
  \<^verbatim>\<open>.js\<close>, \<^verbatim>\<open>.jsx\<close>, \<^verbatim>\<open>.ts\<close>, \<^verbatim>\<open>.tsx\<close>, or the target is the server and it has no
  such \<^verbatim>\<open>entry.server\<close> file; the error names the missing entry. Otherwise the names
  of the input map are the target's entry and the ids of the routes of the manifest that
  have a \<^verbatim>\<open>moduleFile\<close> (an id \<^verbatim>\<open>__proto__\<close>, which no manifest of
  \<^verbatim>\<open>createRouteManifest\<close> holds, names no input). Where the manifest holds each route id
  once, the input named by a route's id is that route's module file resolved against the
  app directory. The input named by the entry is the entry file that \<^verbatim>\<open>findFile\<close>
  returns, an existing file with one of the extensions, provided that no route of the
  manifest that has a \<^verbatim>\<open>moduleFile\<close> has the entry's name for its id: the routes are
  assigned after the entry, and such a route's module takes the entry's place.
\<close>

theorem input_option:
  "(getInputOption es cfg tgt = Inl e \<longleftrightarrow>
      (tgt = BuildTarget_Browser \<and> \<not> entryPresent es ''entry.client''
         \<and> e = missingEntry ''entry.client'' (appDirectory cfg))
      \<or> (tgt = BuildTarget_Server \<and> \<not> entryPresent es ''entry.server''
         \<and> e = missingEntry ''entry.server'' (appDirectory cfg)))
   \<and> (getInputOption es cfg tgt = Inr input \<longrightarrow>
        set (map fst input) =
          set (entryName tgt)
          \<union> set (map route_id (filter givesInput (map snd (routeManifest cfg))))
        \<and> (\<forall>k r f. distinct (map (\<lambda>e. route_id (snd e)) (routeManifest cfg))
               \<and> (k, r) \<in> set (routeManifest cfg) \<and> moduleFile r = Some f \<and> f \<noteq> []
               \<and> route_id r \<noteq> ''__proto__''
             \<longrightarrow> map_of input (route_id r) = Some (path_resolve (appDirectory cfg) f))
        \<and> (\<forall>name \<in> set (entryName tgt).
              name \<notin> set (map route_id (filter hasModuleFile (map snd (routeManifest cfg))))
             \<longrightarrow> map_of input name = findFile es (appDirectory cfg) name entryExts
                 \<and> (\<exists>ext \<in> set entryExts. existsSync es (name @ ext)
                       \<and> map_of input name
                           = Some (path_resolve (appDirectory cfg) (name @ ext)))))"
proof (intro conjI impI)
  show "getInputOption es cfg tgt = Inl e \<longleftrightarrow>
      (tgt = BuildTarget_Browser \<and> \<not> entryPresent es ''entry.client''
         \<and> e = missingEntry ''entry.client'' (appDirectory cfg))
      \<or> (tgt = BuildTarget_Server \<and> \<not> entryPresent es ''entry.server''
         \<and> e = missingEntry ''entry.server'' (appDirectory cfg))"
    by (rule getInputOption_Inl_iff)
next
  assume ok: "getInputOption es cfg tgt = Inr input"
  let ?m = "js_entries (routeManifest cfg)"
  from getInputOption_Inr[OF ok] obtain input0 where
    i: "input = fold (addRouteInput (appDirectory cfg)) ?m input0"
    and k0: "map fst input0 = entryName tgt"
    and e0: "\<forall>name \<in> set (entryName tgt).
                  findFile es (appDirectory cfg) name entryExts = map_of input0 name
                  \<and> (\<exists>ext \<in> set entryExts. existsSync es (name @ ext)
                        \<and> input0 = [(name, path_resolve (appDirectory cfg) (name @ ext))])"
    by blast
  show "set (map fst input) =
          set (entryName tgt)
          \<union> set (map route_id (filter givesInput (map snd (routeManifest cfg))))"
    unfolding i fold_addRouteInput_keys k0 set_js_entries by auto
  show "\<forall>k r f. distinct (map (\<lambda>e. route_id (snd e)) (routeManifest cfg))
               \<and> (k, r) \<in> set (routeManifest cfg) \<and> moduleFile r = Some f \<and> f \<noteq> []
               \<and> route_id r \<noteq> ''__proto__''
             \<longrightarrow> map_of input (route_id r) = Some (path_resolve (appDirectory cfg) f)"
  proof (intro allI impI)
    fix k r f
    assume h: "distinct (map (\<lambda>e. route_id (snd e)) (routeManifest cfg))
               \<and> (k, r) \<in> set (routeManifest cfg) \<and> moduleFile r = Some f \<and> f \<noteq> []
               \<and> route_id r \<noteq> ''__proto__''"
    then have "distinct (map (\<lambda>e. route_id (snd e)) ?m)" "(k, r) \<in> set ?m"
      by (simp_all add: distinct_map_js_entries set_js_entries)
    with h show "map_of input (route_id r) = Some (path_resolve (appDirectory cfg) f)"
      unfolding i using fold_addRouteInput_value by blast
  qed
  show "\<forall>name \<in> set (entryName tgt).
              name \<notin> set (map route_id (filter hasModuleFile (map snd (routeManifest cfg))))
             \<longrightarrow> map_of input name = findFile es (appDirectory cfg) name entryExts
                 \<and> (\<exists>ext \<in> set entryExts. existsSync es (name @ ext)
                       \<and> map_of input name
                           = Some (path_resolve (appDirectory cfg) (name @ ext)))"
  proof (intro ballI impI)
    fix name
    assume n: "name \<in> set (entryName tgt)"
      and fresh: "name \<notin> set (map route_id (filter hasModuleFile (map snd (routeManifest cfg))))"
    from e0 n obtain ext where ext: "ext \<in> set entryExts" "existsSync es (name @ ext)"
      "input0 = [(name, path_resolve (appDirectory cfg) (name @ ext))]"
      and ff: "findFile es (appDirectory cfg) name entryExts = map_of input0 name" by blast
    from fresh have "name \<notin> route_id ` {r \<in> snd ` set ?m. givesInput r}"
      by (auto simp add: set_js_entries givesInput_def)
    then have "map_of input name = map_of input0 name"
      unfolding i by (rule fold_addRouteInput_other)
    with ext ff show "map_of input name = findFile es (appDirectory cfg) name entryExts
                 \<and> (\<exists>ext \<in> set entryExts. existsSync es (name @ ext)
                       \<and> map_of input name
                           = Some (path_resolve (appDirectory cfg) (name @ ext)))"
      by auto
  qed
qed

text \<open>
  Claim C6 as first stated has the input map contain the target's entry whenever
  resolution succeeds. With a manifest whose one route has the id \<^verbatim>\<open>entry.client\<close> the
  entry file is found, and the one input of the map, under the entry's name, is the
  route's module.
\<close>

theorem input_option_counterexample:
  "findFile exampleAppDir (appDirectory collisionConfig) ''entry.client'' entryExts
     = Some ''/site/app/entry.client.tsx''
   \<and> getInputOption exampleAppDir collisionConfig BuildTarget_Browser
     = Inr [(''entry.client'', ''/site/app/routes/x.tsx'')]"
proof -
  have "path_resolve ''/site/app'' ''entry.client.tsx'' = ''/site/app/entry.client.tsx''"
    by (simp add: path_resolve_def normalizeStep_def)
  then have "findFile exampleAppDir (appDirectory collisionConfig) ''entry.client'' entryExts
     = Some ''/site/app/entry.client.tsx''"
    by (simp add: collisionConfig_def exampleConfig_def exampleAppDir_def entryExts_def
        existsSync_def)
  with collisionInput show ?thesis by simp
qed

theorem input_option_witness:
  "getInputOption [] exampleConfig BuildTarget_Browser =
     Inl (Error (''Missing '' @ [CHR 0x22] @ ''entry.client'' @ [CHR 0x22] @ '' file in /site/app''))
   \<and> (\<exists>input. getInputOption exampleAppDir exampleConfig BuildTarget_Browser = Inr input
        \<and> set (map fst input) =
            {''__root'', ''routes/gists'', ''routes/gists/$username'', ''routes/about'',
             ''entry.client''}
        \<and> map_of input ''routes/about'' = Some ''/site/app/routes/about.tsx''
        \<and> map_of input ''entry.client'' = Some ''/site/app/entry.client.tsx'')"
proof -
  let ?e = "missingEntry ''entry.client'' (appDirectory exampleConfig)"
  have 1: "getInputOption [] exampleConfig BuildTarget_Browser = Inl ?e"
    using input_option[of "[]" exampleConfig BuildTarget_Browser ?e]
    by (simp add: entryPresent_def entryExts_def existsSync_def)
  obtain input where ok: "getInputOption exampleAppDir exampleConfig BuildTarget_Browser = Inr input"
    by (simp add: exampleInput)
  note t = input_option[of exampleAppDir exampleConfig BuildTarget_Browser ?e input]
  have m: "routeManifest exampleConfig =
     [(''__root'', exampleRoute ''__root'' None),
      (''routes/gists'', exampleRoute ''routes/gists'' (Some ''__root'')),
      (''routes/gists/$username'', exampleRoute ''routes/gists/$username'' (Some ''routes/gists'')),
      (''routes/about'', exampleRoute ''routes/about'' (Some ''__root''))]"
    by (simp add: exampleConfig_def exampleManifest)
  from t ok have keys: "set (map fst input) =
          set (entryName BuildTarget_Browser)
          \<union> set (map route_id (filter givesInput (map snd (routeManifest exampleConfig))))"
    by blast
  have k: "set (map fst input) =
            {''__root'', ''routes/gists'', ''routes/gists/$username'', ''routes/about'',
             ''entry.client''}"
    unfolding keys m
    by (simp add: entryName_def exampleRoute_def givesInput_def hasModuleFile_def)
  have d: "distinct (map (\<lambda>e. route_id (snd e)) (routeManifest exampleConfig))"
    unfolding m by (simp add: exampleRoute_def)
  have mem: "(''routes/about'', exampleRoute ''routes/about'' (Some ''__root''))
      \<in> set (routeManifest exampleConfig)"
    unfolding m by simp
  from t ok have "\<forall>k r f. distinct (map (\<lambda>e. route_id (snd e)) (routeManifest exampleConfig))
               \<and> (k, r) \<in> set (routeManifest exampleConfig) \<and> moduleFile r = Some f \<and> f \<noteq> []
               \<and> route_id r \<noteq> ''__proto__''
             \<longrightarrow> map_of input (route_id r) = Some (path_resolve (appDirectory exampleConfig) f)"
    by blast
  from this[rule_format, of "''routes/about''" "exampleRoute ''routes/about'' (Some ''__root'')"
      "''routes/about.tsx''"] d mem
  have v: "map_of input ''routes/about'' = Some ''/site/app/routes/about.tsx''"
    by (simp add: exampleRoute_def exampleConfig_def path_resolve_def normalizeStep_def)
  have fresh: "''entry.client''
      \<notin> set (map route_id (filter hasModuleFile (map snd (routeManifest exampleConfig))))"
    unfolding m by (simp add: exampleRoute_def hasModuleFile_def)
  have ff: "findFile exampleAppDir (appDirectory exampleConfig) ''entry.client'' entryExts
      = Some ''/site/app/entry.client.tsx''"
    by (simp add: exampleConfig_def exampleAppDir_def entryExts_def existsSync_def
        path_resolve_def normalizeStep_def)
  from t ok have "\<forall>name \<in> set (entryName BuildTarget_Browser).
              name \<notin> set (map route_id (filter hasModuleFile (map snd (routeManifest exampleConfig))))
             \<longrightarrow> map_of input name
                   = findFile exampleAppDir (appDirectory exampleConfig) name entryExts
                 \<and> (\<exists>ext \<in> set entryExts. existsSync exampleAppDir (name @ ext)
                       \<and> map_of input name
                           = Some (path_resolve (appDirectory exampleConfig) (name @ ext)))"
    by blast
  from this[rule_format, of "''entry.client''"] fresh ff
  have w: "map_of input ''entry.client'' = Some ''/site/app/entry.client.tsx''"
    by (simp add: entryName_def)
  from 1 ok k v w show ?thesis
    by (simp add: missingEntry_def exampleConfig_def)
qed

text \<open>
  Claim C4, as amended. \<^verbatim>\<open>defineConventionalRoutes\<close> throws exactly when the app
  directory has no \<^verbatim>\<open>routes\<close> directory to read, or a file under \<^verbatim>\<open>routes\<close> is neither
  a module file nor a styles file, or a styles file under \<^verbatim>\<open>routes\<close> has a route id that
  no module file has, or the app directory has none of the root layout modules with the
  extensions \<^verbatim>\<open>js\<close>, \<^verbatim>\<open>jsx\<close>, \<^verbatim>\<open>tsx\<close>. In each of these cases it throws; no file
  is dropped in silence.
\<close>

theorem conventional_routes_failure:
  "(\<exists>e. defineConventionalRoutes c layoutRouteId appDir appEntries = Inl e) \<longleftrightarrow>
     \<not> routesReadable appEntries
     \<or> unrecognizedFile c (routeFilePaths appEntries)
     \<or> stylesButNoModule c (routeFilePaths appEntries)
     \<or> rootModuleMissing appEntries layoutRouteId"
proof (cases "map_of appEntries ''routes''")
  case None
  then show ?thesis
    by (simp add: defineConventionalRoutes_def readdirSync_def routesReadable_def)
next
  case (Some node)
  show ?thesis
  proof (cases node)
    case File
    with Some show ?thesis
      by (simp add: defineConventionalRoutes_def readdirSync_def routesReadable_def)
  next
    case Other
    with Some show ?thesis
      by (simp add: defineConventionalRoutes_def readdirSync_def routesReadable_def)
  next
    case (Dir es)
    with Some have rd: "readdirSync appEntries ''routes'' = Inr es"
      and readable: "routesReadable appEntries"
      and paths: "routeFilePaths appEntries = listFiles [] es"
      by (simp_all add: readdirSync_def routesReadable_def routeFilePaths_def)
    show ?thesis
    proof (cases "foldE (visitRouteFile c appDir) (listFiles [] es) []")
      case (Inl e)
      then have "unrecognizedFile c (listFiles [] es)"
        using foldE_visit_Inl_iff[of c appDir "listFiles [] es" "[]"] by blast
      with Inl rd paths show ?thesis
        by (simp add: defineConventionalRoutes_def visitFiles_foldE)
    next
      case (Inr rf)
      then have "\<not> unrecognizedFile c (listFiles [] es)"
        using foldE_visit_Inl_iff[of c appDir "listFiles [] es" "[]"] by auto
      with Inr rd paths readable routeFiles_styles_only[OF Inr]
        defineLayoutRoutes_Inl_iff[of c rf appEntries layoutRouteId]
      show ?thesis
        by (simp add: defineConventionalRoutes_def visitFiles_foldE)
    qed
  qed
qed

text \<open>
  Claim C4 as first stated names three causes only. An app directory with a root module
  and no \<^verbatim>\<open>routes\<close> directory has none of them, and resolution throws the error of
  \<^verbatim>\<open>fs.readdirSync\<close>.
\<close>

theorem conventional_routes_failure_counterexample:
  "defineConventionalRoutes exampleCollaborators ''root'' ''/site/app'' [(''root.tsx'', File)]
     = Inl (SystemError ''ENOENT'')
   \<and> \<not> unrecognizedFile exampleCollaborators (routeFilePaths [(''root.tsx'', File)])
   \<and> \<not> stylesButNoModule exampleCollaborators (routeFilePaths [(''root.tsx'', File)])
   \<and> \<not> rootModuleMissing [(''root.tsx'', File)] ''root''"
  by (simp add: defineConventionalRoutes_def readdirSync_def unrecognizedFile_def
      stylesButNoModule_def rootModuleMissing_def routeFilePaths_def existsSync_def)

theorem conventional_routes_failure_witness:
  "(\<exists>e. defineConventionalRoutes exampleCollaborators ''root'' ''/site/app''
          [(''root.tsx'', File), (''routes'', Dir [(''gists.css'', File)])] = Inl e)
   \<and> (\<exists>e. defineConventionalRoutes exampleCollaborators ''root'' ''/site/app''
          [(''root.tsx'', File), (''routes'', Dir [(''gists.md'', File)])] = Inl e)
   \<and> (\<exists>e. defineConventionalRoutes exampleCollaborators ''root'' ''/site/app''
          [(''routes'', Dir [(''gists.tsx'', File)])] = Inl e)
   \<and> (\<exists>rs. defineConventionalRoutes exampleCollaborators ''root'' ''/site/app'' exampleAppDir
          = Inr rs)"
proof -
  have 1: "\<exists>e. defineConventionalRoutes exampleCollaborators ''root'' ''/site/app''
          [(''root.tsx'', File), (''routes'', Dir [(''gists.css'', File)])] = Inl e"
    using conventional_routes_failure[of exampleCollaborators "''root''" "''/site/app''"
        "[(''root.tsx'', File), (''routes'', Dir [(''gists.css'', File)])]"]
    by (simp add: stylesButNoModule_def routeFilePaths_def relativePath_def
        exampleCollaborators_def suffix_def)
  have 2: "\<exists>e. defineConventionalRoutes exampleCollaborators ''root'' ''/site/app''
          [(''root.tsx'', File), (''routes'', Dir [(''gists.md'', File)])] = Inl e"
    using conventional_routes_failure[of exampleCollaborators "''root''" "''/site/app''"
        "[(''root.tsx'', File), (''routes'', Dir [(''gists.md'', File)])]"]
    by (simp add: unrecognizedFile_def routeFilePaths_def relativePath_def
        exampleCollaborators_def suffix_def)
  have 3: "\<exists>e. defineConventionalRoutes exampleCollaborators ''root'' ''/site/app''
          [(''routes'', Dir [(''gists.tsx'', File)])] = Inl e"
    using conventional_routes_failure[of exampleCollaborators "''root''" "''/site/app''"
        "[(''routes'', Dir [(''gists.tsx'', File)])]"]
    by (simp add: rootModuleMissing_def existsSync_def)
  have paths: "routeFilePaths exampleAppDir =
      [''about.tsx'', ''gists/$username.tsx'', ''gists.css'', ''gists.tsx'']"
    by (simp add: routeFilePaths_def exampleAppDir_def relativePath_def)
  have "\<not> (\<exists>e. defineConventionalRoutes exampleCollaborators ''root'' ''/site/app''
          exampleAppDir = Inl e)"
    using conventional_routes_failure[of exampleCollaborators "''root''" "''/site/app''"
        exampleAppDir]
    unfolding paths
    by (simp add: routesReadable_def unrecognizedFile_def stylesButNoModule_def
        rootModuleMissing_def existsSync_def exampleAppDir_def exampleCollaborators_def
        routeIdOfFile_def stripExtension_def path_join_def suffix_def)
  then have 4: "\<exists>rs. defineConventionalRoutes exampleCollaborators ''root'' ''/site/app''
          exampleAppDir = Inr rs"
    by (cases "defineConventionalRoutes exampleCollaborators ''root'' ''/site/app'' exampleAppDir")
      auto
  from 1 2 3 4 show ?thesis by blast
qed

end
